theory Spec2Isabelle
  imports Main
begin

section \<open>JavaScript values\<close>

text \<open>
  The panel works on untyped data: the dashboard JSON, the frames a data source returns
  and the descriptors built from them. They are modelled by one type of JavaScript
  values. \<open>JObj\<close> lists the own properties of a plain object; the first entry for a key
  is the property. \<open>JFun\<close> stands for a built-in function object (its name and its
  \<open>length\<close>): the program can meet one when it reads \<open>values\<close> of an array. Numbers
  are integers; fractions and NaN as data are outside the model (NaN as the result of a
  conversion is \<open>None\<close>).
\<close>

datatype jsv =
    JUndefined
  | JNull
  | JBool bool
  | JNum int
  | JStr string
  | JArr "jsv list"
  | JObj "(string \<times> jsv) list"
  | JFun string int

datatype error = TypeError | SyntaxError | Failure jsv

text \<open>
  Built-in operations of the language that the program calls and this development does
  not define: number formatting and parsing, and the JSON codec
  (\<open>JSON.stringify(v, null, 2)\<close> on a defined value).
\<close>

record builtins =
  NumberToString :: "int \<Rightarrow> string"
  StringToNumber :: "string \<Rightarrow> int option"
  JSON_parse :: "string \<Rightarrow> error + jsv"
  JSON_stringify :: "jsv \<Rightarrow> string"

fun nullish :: "jsv \<Rightarrow> bool" where
  "nullish JUndefined = True"
| "nullish JNull = True"
| "nullish _ = False"

fun truthy :: "jsv \<Rightarrow> bool" where
  "truthy JUndefined = False"
| "truthy JNull = False"
| "truthy (JBool b) = b"
| "truthy (JNum n) = (n \<noteq> 0)"
| "truthy (JStr s) = (s \<noteq> [])"
| "truthy _ = True"

fun isArray :: "jsv \<Rightarrow> bool" where
  "isArray (JArr xs) = True"
| "isArray _ = False"

text \<open>\<open>a ?? d\<close>\<close>

definition coalesce :: "jsv \<Rightarrow> jsv \<Rightarrow> jsv" where
  "coalesce a d = (if nullish a then d else a)"

text \<open>\<open>a || d\<close>\<close>

definition or_else :: "jsv \<Rightarrow> jsv \<Rightarrow> jsv" where
  "or_else a d = (if truthy a then a else d)"

fun join :: "string \<Rightarrow> string list \<Rightarrow> string" where
  "join sep [] = []"
| "join sep [s] = s"
| "join sep (s # t # ss) = s @ sep @ join sep (t # ss)"

text \<open>The conversion to a string, as template literals and property keys apply it.\<close>

fun to_string :: "('a builtins_scheme) \<Rightarrow> jsv \<Rightarrow> string" where
  "to_string b JUndefined = ''undefined''"
| "to_string b JNull = ''null''"
| "to_string b (JBool c) = (if c then ''true'' else ''false'')"
| "to_string b (JNum n) = NumberToString b n"
| "to_string b (JStr s) = s"
| "to_string b (JArr xs) = join '','' (map (\<lambda>x. if nullish x then [] else to_string b x) xs)"
| "to_string b (JObj kvs) = ''[object Object]''"
| "to_string b (JFun nm n) = ''function '' @ nm @ ''() { [native code] }''"

text \<open>The conversion to a number, as \<open>i < rowCount\<close> applies it; \<open>None\<close> is NaN.\<close>

fun to_number :: "('a builtins_scheme) \<Rightarrow> jsv \<Rightarrow> int option" where
  "to_number b JUndefined = None"
| "to_number b JNull = Some 0"
| "to_number b (JBool c) = Some (if c then 1 else 0)"
| "to_number b (JNum n) = Some n"
| "to_number b (JStr s) = StringToNumber b s"
| "to_number b (JArr xs) = StringToNumber b (to_string b (JArr xs))"
| "to_number b (JObj kvs) = None"
| "to_number b (JFun nm n) = None"

text \<open>
  Reading a property of a value that is neither \<open>undefined\<close> nor \<open>null\<close>. Of the
  inherited members only those the program can reach are modelled: \<open>length\<close> of arrays,
  strings and functions, \<open>values\<close> of arrays (a built-in method) and \<open>name\<close> of functions.
\<close>

fun read_prop :: "jsv \<Rightarrow> string \<Rightarrow> jsv" where
  "read_prop (JObj kvs) k = (case map_of kvs k of None \<Rightarrow> JUndefined | Some v \<Rightarrow> v)"
| "read_prop (JArr xs) k =
     (if k = ''length'' then JNum (int (length xs))
      else if k = ''values'' then JFun ''values'' 0
      else JUndefined)"
| "read_prop (JStr s) k = (if k = ''length'' then JNum (int (length s)) else JUndefined)"
| "read_prop (JFun nm n) k =
     (if k = ''length'' then JNum n else if k = ''name'' then JStr nm else JUndefined)"
| "read_prop _ k = JUndefined"

text \<open>\<open>v.k\<close>: a TypeError on \<open>undefined\<close> and \<open>null\<close>.\<close>

definition get_prop :: "jsv \<Rightarrow> string \<Rightarrow> error + jsv" where
  "get_prop v k = (if nullish v then Inl TypeError else Inr (read_prop v k))"

text \<open>\<open>v?.k\<close>\<close>

definition opt_prop :: "jsv \<Rightarrow> string \<Rightarrow> jsv" where
  "opt_prop v k = (if nullish v then JUndefined else read_prop v k)"

text \<open>\<open>xs[i]\<close> on the elements of an array: \<open>undefined\<close> past the end.\<close>

definition elem :: "jsv list \<Rightarrow> nat \<Rightarrow> jsv" where
  "elem xs i = (if i < length xs then xs ! i else JUndefined)"

text \<open>The elements of an array; no elements for any other value.\<close>

fun items :: "jsv \<Rightarrow> jsv list" where
  "items (JArr xs) = xs"
| "items _ = []"

text \<open>\<open>v[i]\<close> on any value.\<close>

fun get_index :: "('a builtins_scheme) \<Rightarrow> jsv \<Rightarrow> nat \<Rightarrow> error + jsv" where
  "get_index b JUndefined i = Inl TypeError"
| "get_index b JNull i = Inl TypeError"
| "get_index b (JArr xs) i = Inr (elem xs i)"
| "get_index b (JStr s) i = Inr (if i < length s then JStr [s ! i] else JUndefined)"
| "get_index b (JObj kvs) i = Inr (read_prop (JObj kvs) (NumberToString b (int i)))"
| "get_index b _ i = Inr JUndefined"

text \<open>
  \<open>row[k] = v\<close> on a plain object: an existing property keeps its place, a new one goes
  last. The key \<open>__proto__\<close> reaches the accessor that every plain object inherits, which
  creates no own property. (JavaScript enumerates keys that look like array indices
  before the others; the list keeps the order of assignment, and no property below
  reads the order.)
\<close>

fun assign :: "(string \<times> jsv) list \<Rightarrow> string \<Rightarrow> jsv \<Rightarrow> (string \<times> jsv) list" where
  "assign [] k v = [(k, v)]"
| "assign ((k', v') # kvs) k v = (if k' = k then (k, v) # kvs else (k', v') # assign kvs k v)"

definition set_prop :: "(string \<times> jsv) list \<Rightarrow> string \<Rightarrow> jsv \<Rightarrow> (string \<times> jsv) list" where
  "set_prop row k v = (if k = ''__proto__'' then row else assign row k v)"

section \<open>Row Normalizer\<close>

text \<open>
  \<open>fields.forEach(field => { row[field.name] = field.values[i]; })\<close>, started with the
  row built so far. A field that is \<open>null\<close> or \<open>undefined\<close>, or whose \<open>values\<close> is, raises.
\<close>

fun forEach_field :: "('a builtins_scheme) \<Rightarrow> jsv list \<Rightarrow> nat \<Rightarrow> (string \<times> jsv) list
    \<Rightarrow> error + (string \<times> jsv) list" where
  "forEach_field b [] i row = Inr row"
| "forEach_field b (field # flds) i row =
     (case get_prop field ''name'' of
        Inl e \<Rightarrow> Inl e
      | Inr nm \<Rightarrow>
          (case get_prop field ''values'' of
             Inl e \<Rightarrow> Inl e
           | Inr vs \<Rightarrow>
               (case get_index b vs i of
                  Inl e \<Rightarrow> Inl e
                | Inr v \<Rightarrow> forEach_field b flds i (set_prop row (to_string b nm) v))))"

text \<open>\<open>fields[0]?.values?.length || 0\<close>\<close>

definition rowCount :: "jsv list \<Rightarrow> jsv" where
  "rowCount flds = or_else (opt_prop (opt_prop (elem flds 0) ''values'') ''length'') (JNum 0)"

text \<open>The bound of \<open>i < rowCount\<close> as a number of iterations: none when it is NaN.\<close>

definition iterations :: "('a builtins_scheme) \<Rightarrow> jsv \<Rightarrow> nat" where
  "iterations b rc = (case to_number b rc of None \<Rightarrow> 0 | Some n \<Rightarrow> nat n)"

text \<open>\<open>for (let i = 0; i < rowCount; i++) { ...; result.push(row); }\<close>\<close>

function for_rows :: "('a builtins_scheme) \<Rightarrow> jsv list \<Rightarrow> nat \<Rightarrow> nat \<Rightarrow> jsv list
    \<Rightarrow> error + jsv list" where
  "for_rows b flds n i result =
     (if i < n then
        (case forEach_field b flds i [] of
           Inl e \<Rightarrow> Inl e
         | Inr row \<Rightarrow> for_rows b flds n (Suc i) (result @ [JObj row]))
      else Inr result)"
  by pat_completeness auto
termination
  by (relation "measure (\<lambda>(b, flds, n, i, result). n - i)") auto
declare for_rows.simps [simp del]

text \<open>\<open>convertGrafanaDataToJson(data)\<close>: the rows, or the exception raised.\<close>

definition convertGrafanaDataToJson :: "('a builtins_scheme) \<Rightarrow> jsv \<Rightarrow> error + jsv list" where
  "convertGrafanaDataToJson b data =
     (if \<not> truthy data \<or> \<not> isArray data \<or> length (items data) = 0 then Inr []
      else
        (let flds = opt_prop (elem (items data) 0) ''fields'' in
         if \<not> truthy flds \<or> \<not> isArray flds then Inr []
         else for_rows b (items flds) (iterations b (rowCount (items flds))) 0 []))"

section \<open>Dashboard Query Extractor\<close>

text \<open>The object pushed for one target of a panel.\<close>

definition descriptor_obj :: "jsv \<Rightarrow> jsv \<Rightarrow> jsv" where
  "descriptor_obj panel target =
     JObj
       [(''datasource'', coalesce (read_prop target ''datasource'') (JStr ''Unknown'')),
        (''rawSql'', coalesce (read_prop target ''rawSql'') (JStr [])),
        (''refId'', coalesce (read_prop target ''refId'') (JStr [])),
        (''format'', coalesce (read_prop target ''format'') (JStr [])),
        (''title'', coalesce (read_prop panel ''title'') (JStr [])),
        (''description'', coalesce (read_prop panel ''description'') (JStr []))]"

text \<open>Building it reads properties of the target and the panel, which raises when one is missing.\<close>

definition descriptor :: "jsv \<Rightarrow> jsv \<Rightarrow> error + jsv" where
  "descriptor panel target =
     (if nullish target \<or> nullish panel then Inl TypeError
      else Inr (descriptor_obj panel target))"

text \<open>\<open>for (const target of panel.targets) { response.push({...}); }\<close>\<close>

fun for_targets :: "jsv \<Rightarrow> jsv list \<Rightarrow> jsv list \<Rightarrow> error + jsv list" where
  "for_targets panel [] response = Inr response"
| "for_targets panel (target # ts) response =
     (case descriptor panel target of
        Inl e \<Rightarrow> Inl e
      | Inr d \<Rightarrow> for_targets panel ts (response @ [d]))"

text \<open>\<open>for (const panel of panels) { if (!panel.targets || ...) {continue}; ... }\<close>\<close>

fun for_panels :: "jsv list \<Rightarrow> jsv list \<Rightarrow> error + jsv list" where
  "for_panels [] response = Inr response"
| "for_panels (panel # ps) response =
     (case get_prop panel ''targets'' of
        Inl e \<Rightarrow> Inl e
      | Inr ts \<Rightarrow>
          if \<not> truthy ts \<or> \<not> isArray ts then for_panels ps response
          else (case for_targets panel (items ts) response of
                  Inl e \<Rightarrow> Inl e
                | Inr response' \<Rightarrow> for_panels ps response'))"

text \<open>\<open>convertDashboardData(panels)\<close>: the descriptors, or the exception raised.\<close>

definition convertDashboardData :: "('a builtins_scheme) \<Rightarrow> jsv \<Rightarrow> error + jsv list" where
  "convertDashboardData b panels =
     (case (case panels of JStr s \<Rightarrow> JSON_parse b s | _ \<Rightarrow> Inr panels) of
        Inl e \<Rightarrow> Inr []
      | Inr parsed \<Rightarrow>
          if \<not> isArray parsed then Inr [] else for_panels (items parsed) [])"

section \<open>The panel's collaborators\<close>

text \<open>
  An awaited operation resolves with a value, rejects (or throws), or never settles.
\<close>

datatype 'a outcome = Resolved 'a | Rejected error | Pending

record target_request =
  refId :: jsv
  rawSql :: jsv
  format :: jsv

record query_request =
  targets :: "target_request list"
  range_from :: int
  range_to :: int
  intervalMs :: int
  maxDataPoints :: int
  scopedVars :: "(string \<times> jsv) list"
  timezone :: string

text \<open>
  What the subscriber of a query's stream is told first: a response, an error, or
  nothing (the stream completes or stays silent).
\<close>

datatype stream = Emits jsv | Errors jsv | Silent

text \<open>A data source is its \<open>query\<close> method, awaited.\<close>

datatype datasource = DataSource (query: "query_request \<Rightarrow> stream outcome")

record panel_options =
  groqApiKey :: string
  initalChatMessage :: string
  llmUsed :: string

record message =
  content :: string
  role :: string

text \<open>The POST to the chat-completions endpoint: its Authorization header and its body.\<close>

record completion_request =
  authorization :: string
  model :: string
  messages :: "message list"

text \<open>
  The host of one run of a handler: the built-ins, the panel's props
  (\<open>data.request?.dashboardUID\<close> and the options), the backend service, the data-source
  registry, the clock as the executor run for a descriptor reads it (\<open>Date.now()\<close>, then
  \<open>new Date()\<close>, in milliseconds), and the completion service, whose outcome stands for
  the whole of \<open>fetch\<close>, \<open>response.json()\<close> and \<open>choices[0].message\<close>.
\<close>

record host = builtins +
  dashboardUID :: jsv
  options :: panel_options
  backend_get :: "string \<Rightarrow> jsv outcome"
  datasource_get :: "jsv \<Rightarrow> datasource outcome"
  Date_now :: "jsv \<Rightarrow> int"
  new_Date :: "jsv \<Rightarrow> int"
  completion :: "completion_request \<Rightarrow> message outcome"

section \<open>fetchDashboard\<close>

definition fetchDashboard :: "host \<Rightarrow> jsv outcome" where
  "fetchDashboard h =
     (if \<not> truthy (dashboardUID h) then Resolved (JArr [])
      else
        (case backend_get h (''/api/dashboards/uid/'' @ to_string h (dashboardUID h)) of
           Pending \<Rightarrow> Pending
         | Rejected err \<Rightarrow> Resolved (JArr [])
         | Resolved dashboardData \<Rightarrow>
             (case get_prop dashboardData ''dashboard'' of
                Inl e \<Rightarrow> Resolved (JArr [])
              | Inr dashboard \<Rightarrow>
                  (case get_prop dashboard ''panels'' of
                     Inl e \<Rightarrow> Resolved (JArr [])
                   | Inr panels \<Rightarrow>
                       (case convertDashboardData h panels of
                          Inl e \<Rightarrow> Resolved (JArr [])
                        | Inr convertedData \<Rightarrow> Resolved (JArr convertedData))))))"

section \<open>Query Executor\<close>

definition query_request_for :: "host \<Rightarrow> jsv \<Rightarrow> query_request" where
  "query_request_for h target =
     \<lparr>targets =
        [\<lparr>refId = coalesce (read_prop target ''refId'') (JStr ''A''),
          rawSql = coalesce (read_prop target ''rawSql'') (JStr []),
          format = coalesce (read_prop target ''format'') (JStr ''table'')\<rparr>],
      range_from = Date_now h target - 3600 * 1000,
      range_to = new_Date h target,
      intervalMs = 60000,
      maxDataPoints = 500,
      scopedVars = [],
      timezone = ''browser''\<rparr>"

text \<open>
  \<open>new Promise((resolve, reject) => response$.subscribe({next, error}))\<close>. An exception
  inside \<open>next\<close> is reported by the stream library out of band: the promise is left
  unsettled by that notification, and later notifications are not modelled.
\<close>

definition subscribe :: "('a builtins_scheme) \<Rightarrow> stream \<Rightarrow> jsv outcome" where
  "subscribe b s =
     (case s of
        Emits response \<Rightarrow>
          (case get_prop response ''data'' of
             Inl e \<Rightarrow> Pending
           | Inr d \<Rightarrow>
               (case convertGrafanaDataToJson b d of
                  Inl e \<Rightarrow> Pending
                | Inr result \<Rightarrow> Resolved (JArr result)))
      | Errors err \<Rightarrow> Rejected (Failure err)
      | Silent \<Rightarrow> Pending)"

text \<open>
  \<open>queryDataSource(target)\<close>: the query requests it issues and the outcome of its
  promise. The \<open>catch\<close> covers what is awaited inside the \<open>try\<close>; the promise returned
  from inside the \<open>try\<close> is not awaited there, so its rejection is the function's own.
\<close>

definition queryDataSource :: "host \<Rightarrow> jsv \<Rightarrow> query_request list \<times> jsv outcome" where
  "queryDataSource h target =
     (case get_prop target ''datasource'' of
        Inl e \<Rightarrow> ([], Resolved JNull)
      | Inr ds \<Rightarrow>
          if \<not> truthy ds then ([], Resolved JUndefined)
          else
            (case datasource_get h ds of
               Rejected e \<Rightarrow> ([], Resolved JNull)
             | Pending \<Rightarrow> ([], Pending)
             | Resolved src \<Rightarrow>
                 (let req = query_request_for h target in
                  case query src req of
                    Rejected e \<Rightarrow> ([req], Resolved JNull)
                  | Pending \<Rightarrow> ([req], Pending)
                  | Resolved response \<Rightarrow> ([req], subscribe h response))))"

section \<open>Context Assembler\<close>

text \<open>\<open>dashboardData.filter((target) => target.rawSql)\<close>\<close>

fun filter_rawSql :: "jsv list \<Rightarrow> error + jsv list" where
  "filter_rawSql [] = Inr []"
| "filter_rawSql (target # ts) =
     (case get_prop target ''rawSql'' of
        Inl e \<Rightarrow> Inl e
      | Inr v \<Rightarrow>
          (case filter_rawSql ts of
             Inl e \<Rightarrow> Inl e
           | Inr kept \<Rightarrow> Inr (if truthy v then target # kept else kept)))"

text \<open>\<open>{ title: target.title, description: target.description, result }\<close>\<close>

definition entry :: "jsv \<Rightarrow> jsv \<Rightarrow> jsv" where
  "entry target result =
     JObj [(''title'', read_prop target ''title''),
           (''description'', read_prop target ''description''),
           (''result'', result)]"

text \<open>The asynchronous callback of \<open>.map\<close>, on a descriptor that passed the filter.\<close>

definition panelEntry :: "host \<Rightarrow> jsv \<Rightarrow> jsv outcome" where
  "panelEntry h target =
     (case snd (queryDataSource h target) of
        Resolved result \<Rightarrow>
          Resolved (entry target result)
      | Rejected e \<Rightarrow> Rejected e
      | Pending \<Rightarrow> Pending)"

text \<open>
  \<open>Promise.all\<close>: rejected as soon as one promise rejects (here with the rejection that
  comes first in the list), resolved once all have resolved, unsettled otherwise.
\<close>

fun promise_all :: "'a outcome list \<Rightarrow> 'a list outcome" where
  "promise_all [] = Resolved []"
| "promise_all (p # ps) =
     (case p of
        Rejected e \<Rightarrow> Rejected e
      | Resolved v \<Rightarrow>
          (case promise_all ps of
             Resolved vs \<Rightarrow> Resolved (v # vs)
           | Rejected e \<Rightarrow> Rejected e
           | Pending \<Rightarrow> Pending)
      | Pending \<Rightarrow>
          (case promise_all ps of
             Rejected e \<Rightarrow> Rejected e
           | _ \<Rightarrow> Pending))"

text \<open>\<open>await Promise.all(filtered.map(async (target) => ...))\<close>\<close>

definition newPanelData :: "host \<Rightarrow> jsv list \<Rightarrow> jsv list outcome" where
  "newPanelData h filtered = promise_all (map (panelEntry h) filtered)"

section \<open>Conversation Controller\<close>

text \<open>The React state as one render, and the handlers it created, see it.\<close>

record view =
  inputValue :: string
  chat :: "message list"

definition system_message :: "host \<Rightarrow> jsv list \<Rightarrow> message" where
  "system_message h panelData =
     \<lparr>content = initalChatMessage (options h) @ '' This is the data on the dashboard: ''
                 @ JSON_stringify h (JArr panelData) @ ''.'',
      role = ''system''\<rparr>"

definition user_message :: "string \<Rightarrow> message" where
  "user_message t = \<lparr>content = t, role = ''user''\<rparr>"

text \<open>
  What a run of \<open>submitQuestion\<close> that reaches its end does, in order:
  \<open>setChat(m)\<close>, \<open>fetchGroqData(m)\<close> (not awaited), \<open>setInputValue('')\<close>.
\<close>

record effects =
  set_chat :: "message list"
  dispatched :: "message list"
  set_input :: string

text \<open>
  A run ends there (\<open>Done\<close>), returns at the guard on the fetched descriptors
  (\<open>EarlyReturn\<close>), is ended by an exception before any state is set (\<open>Aborted\<close>), or
  waits for ever on something that never settles (\<open>Hung\<close>).
\<close>

datatype submit_result = Done effects | EarlyReturn | Aborted error | Hung

definition submitQuestion :: "host \<Rightarrow> 'a view_scheme \<Rightarrow> submit_result" where
  "submitQuestion h v =
     (case fetchDashboard h of
        Pending \<Rightarrow> Hung
      | Rejected e \<Rightarrow> Aborted e
      | Resolved dashboardData \<Rightarrow>
          if \<not> truthy dashboardData then EarlyReturn
          else if length (chat v) = 0 then
            (if \<not> isArray dashboardData then Aborted TypeError
             else
               (case filter_rawSql (items dashboardData) of
                  Inl e \<Rightarrow> Aborted e
                | Inr filtered \<Rightarrow>
                    (case newPanelData h filtered of
                       Rejected e \<Rightarrow> Aborted e
                     | Pending \<Rightarrow> Hung
                     | Resolved panelData \<Rightarrow>
                         (let initialMessages =
                                [system_message h panelData, user_message (inputValue v)]
                          in Done \<lparr>set_chat = initialMessages,
                                   dispatched = initialMessages,
                                   set_input = []\<rparr>))))
          else
            (let furtherMessages = chat v @ [user_message (inputValue v)]
             in Done \<lparr>set_chat = furtherMessages,
                      dispatched = furtherMessages,
                      set_input = []\<rparr>))"

text \<open>\<open>fetchGroqData(messages)\<close>: the request sent, and the message it will append.\<close>

definition groq_request :: "host \<Rightarrow> message list \<Rightarrow> completion_request" where
  "groq_request h msgs =
     \<lparr>authorization = ''Bearer '' @ groqApiKey (options h),
      model = llmUsed (options h),
      messages = msgs\<rparr>"

definition fetchGroqData :: "host \<Rightarrow> message list \<Rightarrow> message outcome" where
  "fetchGroqData h msgs = completion h (groq_request h msgs)"

text \<open>The state after the three calls at the end of a run of \<open>submitQuestion\<close>.\<close>

definition apply_effects :: "effects \<Rightarrow> view \<Rightarrow> view" where
  "apply_effects fx v = v\<lparr>chat := set_chat fx, inputValue := set_input fx\<rparr>"

text \<open>
  \<open>setChat(value => [...value, messageResponse])\<close>, which \<open>fetchGroqData\<close> reaches only
  when the completion service has answered.
\<close>

definition settle :: "message outcome \<Rightarrow> view \<Rightarrow> view" where
  "settle c v = (case c of Resolved m \<Rightarrow> v\<lparr>chat := chat v @ [m]\<rparr> | _ \<Rightarrow> v)"

text \<open>A submit and the outcome of its completion request, with nothing in between.\<close>

definition turn :: "host \<Rightarrow> view \<Rightarrow> view" where
  "turn h v =
     (case submitQuestion h v of
        Done fx \<Rightarrow> settle (fetchGroqData h (dispatched fx)) (apply_effects fx v)
      | _ \<Rightarrow> v)"

section \<open>The panel over time\<close>

text \<open>
  The widget between events: the React state, the runs of \<open>submitQuestion\<close> that have
  started and not ended (each with the state its closure captured), the completion
  requests in flight, and two traces: every completion request sent so far (a request
  is what \<open>fetchGroqData\<close> posts for the messages it is given), and every system
  message that a first-turn run has built and set so far.
\<close>

record panel = view +
  running :: "view list"
  awaiting :: "completion_request list"
  requests :: "completion_request list"
  systems :: "message list"

definition initial :: panel where
  "initial =
     \<lparr>inputValue = [], chat = [], running = [], awaiting = [], requests = [], systems = []\<rparr>"

text \<open>
  One event. The user types; the user clicks Send, which starts a run on the state
  rendered last; a run reaches its end and performs its three calls, of which
  \<open>fetchGroqData\<close> posts its request; a run ends early; the completion service answers
  a request, and \<open>fetchGroqData\<close> appends the answer; a completion request fails. Runs
  and requests may overlap and end in any order, each against a host of its own.
\<close>

inductive step :: "panel \<Rightarrow> panel \<Rightarrow> bool" where
  typed: "step s (s\<lparr>inputValue := t\<rparr>)"
| clicked: "step s (s\<lparr>running := view.truncate s # running s\<rparr>)"
| finished:
    "r \<in> set (running s) \<Longrightarrow> submitQuestion h r = Done fx \<Longrightarrow>
     step s (s\<lparr>chat := set_chat fx, inputValue := set_input fx,
               running := remove1 r (running s),
               awaiting := groq_request h (dispatched fx) # awaiting s,
               requests := groq_request h (dispatched fx) # requests s,
               systems := (if chat r = [] then [set_chat fx ! 0] else []) @ systems s\<rparr>)"
| stopped:
    "r \<in> set (running s) \<Longrightarrow> submitQuestion h r = EarlyReturn \<or> submitQuestion h r = Aborted e \<Longrightarrow>
     step s (s\<lparr>running := remove1 r (running s)\<rparr>)"
| answered:
    "q \<in> set (awaiting s) \<Longrightarrow> completion (h :: host) q = Resolved reply \<Longrightarrow>
     step s (s\<lparr>chat := chat s @ [reply], awaiting := remove1 q (awaiting s)\<rparr>)"
| failed:
    "q \<in> set (awaiting s) \<Longrightarrow> completion (h :: host) q = Rejected e \<Longrightarrow>
     step s (s\<lparr>awaiting := remove1 q (awaiting s)\<rparr>)"

inductive reachable :: "panel \<Rightarrow> bool" where
  start: "reachable initial"
| after: "reachable s \<Longrightarrow> step s s' \<Longrightarrow> reachable s'"

text \<open>\<open>chat.slice(1)\<close>, the messages the widget renders.\<close>

definition rendered :: "message list \<Rightarrow> message list" where
  "rendered c = drop 1 c"

section \<open>Vocabulary of the properties\<close>

text \<open>
  A field of a column-oriented frame: an object with a string \<open>name\<close> that names an
  ordinary property (not the inherited accessor \<open>__proto__\<close>) and an array \<open>values\<close>.
\<close>

definition valid_field :: "jsv \<Rightarrow> bool" where
  "valid_field f =
     (\<not> nullish f \<and>
      (case read_prop f ''name'' of JStr s \<Rightarrow> s \<noteq> ''__proto__'' | _ \<Rightarrow> False) \<and>
      isArray (read_prop f ''values''))"

definition name_of :: "jsv \<Rightarrow> string" where
  "name_of f = (case read_prop f ''name'' of JStr s \<Rightarrow> s | _ \<Rightarrow> [])"

definition values_of :: "jsv \<Rightarrow> jsv list" where
  "values_of f = items (read_prop f ''values'')"

definition cell :: "jsv \<Rightarrow> nat \<Rightarrow> string \<times> jsv" where
  "cell f i = (name_of f, elem (values_of f) i)"

text \<open>The target list of a panel: empty when \<open>targets\<close> is not an array.\<close>

definition target_list :: "jsv \<Rightarrow> jsv list" where
  "target_list panel = items (read_prop panel ''targets'')"

text \<open>
  A run of the executor fails inside its \<open>try\<close> when the descriptor has no data-source
  reference, when the registry lookup rejects, or when the \<open>query\<close> call throws or
  rejects: the run then resolves with \<open>undefined\<close> or \<open>null\<close>.
\<close>

definition caught_failure :: "host \<Rightarrow> jsv \<Rightarrow> bool" where
  "caught_failure h target =
     (case get_prop target ''datasource'' of
        Inl e \<Rightarrow> True
      | Inr ds \<Rightarrow>
          \<not> truthy ds \<or>
          (case datasource_get h ds of
             Rejected e \<Rightarrow> True
           | Pending \<Rightarrow> False
           | Resolved src \<Rightarrow>
               (case query src (query_request_for h target) of
                  Rejected e \<Rightarrow> True
                | _ \<Rightarrow> False)))"

text \<open>
  The context assembly of a first turn: the dashboard fetch, the filter and the
  fan-out, as \<open>submitQuestion\<close> chains them.
\<close>

definition assembled :: "host \<Rightarrow> jsv list outcome" where
  "assembled h =
     (case fetchDashboard h of
        Pending \<Rightarrow> Pending
      | Rejected e \<Rightarrow> Rejected e
      | Resolved dashboardData \<Rightarrow>
          (case filter_rawSql (items dashboardData) of
             Inl e \<Rightarrow> Rejected e
           | Inr filtered \<Rightarrow> newPanelData h filtered))"

text \<open>
  A backend response is malformed when reading \<open>dashboard.panels\<close> from it raises, when
  the extractor raises on the panels, or when the extractor falls back because the
  panels are a text that does not parse or are not a list.
\<close>

definition malformed :: "host \<Rightarrow> jsv \<Rightarrow> bool" where
  "malformed h dashboardData =
     (case get_prop dashboardData ''dashboard'' of
        Inl e \<Rightarrow> True
      | Inr dashboard \<Rightarrow>
          (case get_prop dashboard ''panels'' of
             Inl e \<Rightarrow> True
           | Inr panels \<Rightarrow>
               (case convertDashboardData h panels of
                  Inl e \<Rightarrow> True
                | Inr ds \<Rightarrow>
                    (case panels of
                       JStr s \<Rightarrow> (case JSON_parse h s of Inl e \<Rightarrow> True | Inr p \<Rightarrow> \<not> isArray p)
                     | _ \<Rightarrow> \<not> isArray panels))))"

text \<open>
  The dashboard fetch fails: there is no dashboard UID, the metadata request is
  rejected, or its response is malformed.
\<close>

definition fetch_failed :: "host \<Rightarrow> bool" where
  "fetch_failed h =
     (\<not> truthy (dashboardUID h) \<or>
      (case backend_get h (''/api/dashboards/uid/'' @ to_string h (dashboardUID h)) of
         Rejected e \<Rightarrow> True
       | Pending \<Rightarrow> False
       | Resolved dashboardData \<Rightarrow> malformed h dashboardData))"

text \<open>
  A system message as a first-turn run synthesizes it: built by \<open>submitQuestion\<close> on some
  host from the panel data that the context assembly of that host resolved with.
\<close>

definition synthesized :: "message \<Rightarrow> bool" where
  "synthesized m =
     (\<exists>h panelData. assembled h = Resolved panelData \<and> m = system_message h panelData)"

text \<open>A message list that starts with one of the given system messages.\<close>

definition headed :: "message list \<Rightarrow> message list \<Rightarrow> bool" where
  "headed ms c = (c \<noteq> [] \<and> c ! 0 \<in> set ms)"

definition invariant :: "panel \<Rightarrow> bool" where
  "invariant s =
     ((chat s = [] \<or> headed (systems s) (chat s)) \<and>
      (\<forall>r \<in> set (running s). chat r = [] \<or> headed (systems s) (chat r)) \<and>
      (awaiting s = [] \<or> chat s \<noteq> []) \<and>
      (\<forall>q \<in> set (requests s). headed (systems s) (messages q)) \<and>
      (\<forall>m \<in> set (systems s). synthesized m))"

section \<open>Sample inputs\<close>

definition sample_builtins :: builtins where
  "sample_builtins =
     \<lparr>NumberToString = (\<lambda>n. ''0''),
      StringToNumber = (\<lambda>s. None),
      JSON_parse = (\<lambda>s. Inl SyntaxError),
      JSON_stringify = (\<lambda>v. ''[...]'')\<rparr>"

definition sample_frame :: jsv where
  "sample_frame =
     JObj [(''fields'',
       JArr [JObj [(''name'', JStr ''time''), (''values'', JArr [JNum 1, JNum 2])],
             JObj [(''name'', JStr ''cpu''), (''values'', JArr [JNum 30, JNum 70])]])]"

definition sample_rows :: "jsv list" where
  "sample_rows =
     [JObj [(''time'', JNum 1), (''cpu'', JNum 30)],
      JObj [(''time'', JNum 2), (''cpu'', JNum 70)]]"

definition sample_panels :: "jsv list" where
  "sample_panels =
     [JObj [(''title'', JStr ''A''), (''targets'', JArr [JObj [(''rawSql'', JStr ''SELECT 1'')]])],
      JObj [(''title'', JStr ''B'')]]"

definition sample_descriptor :: jsv where
  "sample_descriptor =
     descriptor_obj
       (JObj [(''title'', JStr ''A''), (''targets'', JArr [JObj [(''rawSql'', JStr ''SELECT 1'')]])])
       (JObj [(''rawSql'', JStr ''SELECT 1'')])"

text \<open>
  A registry with three names: \<open>good\<close> answers every query with one frame, the stream
  of \<open>bad\<close> signals an error, and any other name is unknown to it. The backend returns
  the dashboard whose panels are given.
\<close>

definition good_source :: datasource where
  "good_source = DataSource (\<lambda>req. Resolved (Emits (JObj [(''data'', JArr [sample_frame])])))"

definition bad_source :: datasource where
  "bad_source = DataSource (\<lambda>req. Resolved (Errors (JStr ''syntax error'')))"

definition sample_host :: "jsv list \<Rightarrow> host" where
  "sample_host panels =
     \<lparr>NumberToString = (\<lambda>n. ''0''),
      StringToNumber = (\<lambda>s. None),
      JSON_parse = (\<lambda>s. Inl SyntaxError),
      JSON_stringify = (\<lambda>v. if v = JArr [] then ''[]'' else ''[...]''),
      dashboardUID = JStr ''abc'',
      options = \<lparr>groqApiKey = ''key'', initalChatMessage = ''Answer briefly.'',
                 llmUsed = ''llama-3.3-70b-versatile''\<rparr>,
      backend_get = (\<lambda>url. Resolved (JObj [(''dashboard'', JObj [(''panels'', JArr panels)])])),
      datasource_get =
        (\<lambda>ds. if ds = JStr ''good'' then Resolved good_source
              else if ds = JStr ''bad'' then Resolved bad_source
              else Rejected (Failure (JStr ''not found''))),
      Date_now = (\<lambda>t. 7200000),
      new_Date = (\<lambda>t. 7200001),
      completion = (\<lambda>req. Rejected (Failure (JStr ''network'')))\<rparr>"

definition sample_target :: "string \<Rightarrow> string \<Rightarrow> jsv" where
  "sample_target ds title =
     JObj [(''datasource'', JStr ds), (''rawSql'', JStr ''SELECT 1''), (''refId'', JStr []),
           (''format'', JStr []), (''title'', JStr title), (''description'', JStr [])]"

definition failing_panels :: "jsv list" where
  "failing_panels =
     [JObj [(''title'', JStr ''A''),
            (''targets'', JArr [JObj [(''datasource'', JStr ''bad''),
                                      (''rawSql'', JStr ''SELECT 1'')]])]]"

definition silent_host :: host where
  "silent_host = (sample_host [])\<lparr>backend_get := (\<lambda>url. Pending)\<rparr>"

definition no_uid_host :: host where
  "no_uid_host = (sample_host sample_panels)\<lparr>dashboardUID := JUndefined\<rparr>"

definition rejecting_host :: host where
  "rejecting_host =
     (sample_host sample_panels)\<lparr>backend_get := (\<lambda>url. Rejected (Failure (JStr ''404'')))\<rparr>"

definition sample_system :: message where
  "sample_system =
     system_message (sample_host sample_panels)
       [JObj [(''title'', JStr ''A''), (''description'', JStr []), (''result'', JNull)]]"

definition sample_state :: panel where
  "sample_state =
     \<lparr>inputValue = [], chat = [sample_system, user_message ''X''], running = [],
      awaiting = [groq_request (sample_host sample_panels) [sample_system, user_message ''X'']],
      requests = [groq_request (sample_host sample_panels) [sample_system, user_message ''X'']],
      systems = [sample_system]\<rparr>"

text \<open>
  Send clicked twice on the empty transcript: the state after the first of the two runs
  has ended, and the state after the second has, on a dashboard without panels.
\<close>

definition overlap_before :: panel where
  "overlap_before =
     \<lparr>inputValue = [], chat = [sample_system, user_message ''X''],
      running = [\<lparr>inputValue = ''X'', chat = []\<rparr>],
      awaiting = [groq_request (sample_host sample_panels) [sample_system, user_message ''X'']],
      requests = [groq_request (sample_host sample_panels) [sample_system, user_message ''X'']],
      systems = [sample_system]\<rparr>"

definition overlap_after :: panel where
  "overlap_after =
     \<lparr>inputValue = [], chat = [system_message (sample_host []) [], user_message ''X''],
      running = [],
      awaiting =
        [groq_request (sample_host []) [system_message (sample_host []) [], user_message ''X''],
         groq_request (sample_host sample_panels) [sample_system, user_message ''X'']],
      requests =
        [groq_request (sample_host []) [system_message (sample_host []) [], user_message ''X''],
         groq_request (sample_host sample_panels) [sample_system, user_message ''X'']],
      systems = [system_message (sample_host []) [], sample_system]\<rparr>"

section \<open>Properties of the Row Normalizer\<close>

lemma assign_fresh: "k \<notin> fst ` set row \<Longrightarrow> assign row k v = row @ [(k, v)]"
  by (induction row) auto

lemma forEach_field_valid:
  "\<forall>f \<in> set fs. valid_field f \<Longrightarrow> distinct (map name_of fs) \<Longrightarrow>
   set (map name_of fs) \<inter> fst ` set row = {} \<Longrightarrow>
   forEach_field b fs i row = Inr (row @ map (\<lambda>f. cell f i) fs)"
proof (induction fs arbitrary: row)
  case Nil
  then show ?case by simp
next
  case (Cons f fs)
  from Cons.prems(1) have vf: "valid_field f" by simp
  then obtain s where nm: "read_prop f ''name'' = JStr s" and s: "s \<noteq> ''__proto__''"
    by (auto simp: valid_field_def split: jsv.splits)
  from vf obtain vs where vs: "read_prop f ''values'' = JArr vs"
    by (cases "read_prop f ''values''") (auto simp: valid_field_def)
  from vf have nn: "\<not> nullish f" by (simp add: valid_field_def)
  have name: "name_of f = s" by (simp add: name_of_def nm)
  from Cons.prems(3) have fresh: "s \<notin> fst ` set row" by (auto simp: name)
  let ?row = "row @ [cell f i]"
  have step: "set_prop row s (elem vs i) = ?row"
    using s fresh by (simp add: set_prop_def assign_fresh cell_def name values_of_def vs)
  have "set (map name_of fs) \<inter> fst ` set ?row = {}"
    using Cons.prems(2,3) by (auto simp: cell_def)
  with Cons.IH [of ?row] Cons.prems have
    "forEach_field b fs i ?row = Inr (?row @ map (\<lambda>f. cell f i) fs)" by simp
  then show ?case
    using nn by (simp add: get_prop_def nm vs step)
qed

lemma for_rows_all:
  "i \<le> n \<Longrightarrow> \<forall>j<n. forEach_field b fs j [] = Inr (g j) \<Longrightarrow>
   for_rows b fs n i acc = Inr (acc @ map (\<lambda>j. JObj (g j)) [i..<n])"
proof (induction b fs n i acc rule: for_rows.induct)
  case (1 b fs n i acc)
  show ?case
  proof (cases "i < n")
    case True
    with 1 have row: "forEach_field b fs i [] = Inr (g i)" by simp
    from 1(1) [OF True row] 1(3) True
    have "for_rows b fs n (Suc i) (acc @ [JObj (g i)]) =
          Inr ((acc @ [JObj (g i)]) @ map (\<lambda>j. JObj (g j)) [Suc i..<n])" by simp
    with True row show ?thesis
      by (subst for_rows.simps) (simp add: upt_conv_Cons)
  next
    case False
    with 1(2) show ?thesis by (subst for_rows.simps) simp
  qed
qed

lemma for_rows_none: "for_rows b fs 0 0 [] = Inr []"
  by (subst for_rows.simps) simp

lemma rowCount_valid:
  "valid_field f \<Longrightarrow> iterations b (rowCount (f # fs)) = length (values_of f)"
  by (cases "read_prop f ''values''")
     (auto simp: valid_field_def rowCount_def elem_def opt_prop_def or_else_def
                 iterations_def values_of_def)

lemma normalizer_valid:
  assumes fields: "opt_prop frame ''fields'' = JArr fs" and ne: "fs \<noteq> []"
    and valid: "\<forall>f \<in> set fs. valid_field f" and dist: "distinct (map name_of fs)"
  shows "convertGrafanaDataToJson b (JArr (frame # frames)) =
         Inr (map (\<lambda>i. JObj (map (\<lambda>f. cell f i) fs)) [0..<length (values_of (hd fs))])"
proof -
  from ne obtain f fs' where fs: "fs = f # fs'" by (cases fs) auto
  with valid have n: "iterations b (rowCount fs) = length (values_of (hd fs))"
    by (simp add: rowCount_valid)
  have "\<forall>j<length (values_of (hd fs)).
          forEach_field b fs j [] = Inr (map (\<lambda>f. cell f j) fs)"
    using forEach_field_valid [OF valid dist, of "[]" b] by simp
  from for_rows_all [OF _ this, of 0 "[]"]
  have "for_rows b fs (length (values_of (hd fs))) 0 [] =
        Inr (map (\<lambda>i. JObj (map (\<lambda>f. cell f i) fs)) [0..<length (values_of (hd fs))])"
    by simp
  then show ?thesis
    by (simp add: convertGrafanaDataToJson_def fields elem_def n)
qed

text \<open>
  C3. For a column-oriented input whose first frame has \<open>K\<close> valid fields with distinct
  names and whose first field's \<open>values\<close> array has length \<open>R\<close>, the normalizer returns
  exactly \<open>R\<close> records; record \<open>i\<close> has exactly \<open>K\<close> keys, the field names, and maps each
  field's name to that field's value at index \<open>i\<close> (\<open>undefined\<close> past the end of a
  shorter array).
\<close>

theorem normalizer_rows_and_keys:
  assumes "opt_prop frame ''fields'' = JArr fs" and "length fs = K" and "0 < K"
    and "\<forall>f \<in> set fs. valid_field f" and "distinct (map name_of fs)"
    and "length (values_of (fs ! 0)) = R"
  shows "\<exists>rows. convertGrafanaDataToJson b (JArr (frame # frames)) = Inr rows \<and>
           length rows = R \<and>
           (\<forall>i<R. \<exists>kvs. rows ! i = JObj kvs \<and>
                length kvs = K \<and> distinct (map fst kvs) \<and>
                set (map fst kvs) = set (map name_of fs) \<and>
                (\<forall>f \<in> set fs. read_prop (rows ! i) (name_of f) = elem (values_of f) i))"
proof -
  from assms(2,3) have ne: "fs \<noteq> []" by auto
  then have hd: "hd fs = fs ! 0" by (simp add: hd_conv_nth)
  let ?rows = "map (\<lambda>i. JObj (map (\<lambda>f. cell f i) fs)) [0..<R]"
  have conv: "convertGrafanaDataToJson b (JArr (frame # frames)) = Inr ?rows"
    using normalizer_valid [OF assms(1) ne assms(4,5)] assms(6) hd by simp
  have keys: "map fst (map (\<lambda>f. cell f i) fs) = map name_of fs" for i
    by (simp add: cell_def comp_def)
  have look: "read_prop (JObj (map (\<lambda>f. cell f i) fs)) (name_of f) = elem (values_of f) i"
    if "f \<in> set fs" for f i
  proof -
    have d: "distinct (map fst (map (\<lambda>f. cell f i) fs))"
      using assms(5) by (simp only: keys)
    have "(name_of f, elem (values_of f) i) \<in> set (map (\<lambda>f. cell f i) fs)"
      using that by (auto simp: cell_def)
    from map_of_is_SomeI [OF d this] show ?thesis by simp
  qed
  have "\<forall>i<R. \<exists>kvs. ?rows ! i = JObj kvs \<and>
          length kvs = K \<and> distinct (map fst kvs) \<and>
          set (map fst kvs) = set (map name_of fs) \<and>
          (\<forall>f \<in> set fs. read_prop (?rows ! i) (name_of f) = elem (values_of f) i)"
  proof (intro allI impI)
    fix i assume "i < R"
    let ?kvs = "map (\<lambda>f. cell f i) fs"
    from \<open>i < R\<close> have r: "?rows ! i = JObj ?kvs" by simp
    have "length ?kvs = K" using assms(2) by simp
    moreover have "distinct (map fst ?kvs)" using assms(5) by (simp only: keys)
    moreover have "set (map fst ?kvs) = set (map name_of fs)" by (simp only: keys)
    moreover have "\<forall>f \<in> set fs. read_prop (?rows ! i) (name_of f) = elem (values_of f) i"
      using look by (simp only: r) blast
    ultimately show "\<exists>kvs. ?rows ! i = JObj kvs \<and>
          length kvs = K \<and> distinct (map fst kvs) \<and>
          set (map fst kvs) = set (map name_of fs) \<and>
          (\<forall>f \<in> set fs. read_prop (?rows ! i) (name_of f) = elem (values_of f) i)"
      using r by blast
  qed
  with conv show ?thesis by (intro exI [of _ ?rows]) simp
qed

lemma sample_frame_fields:
  "opt_prop sample_frame ''fields'' =
     JArr [JObj [(''name'', JStr ''time''), (''values'', JArr [JNum 1, JNum 2])],
           JObj [(''name'', JStr ''cpu''), (''values'', JArr [JNum 30, JNum 70])]]"
  by (simp add: sample_frame_def opt_prop_def)

theorem normalizer_rows_and_keys_witness:
  "\<exists>rows. convertGrafanaDataToJson sample_builtins (JArr [sample_frame]) = Inr rows \<and>
     length rows = 2 \<and>
     (\<forall>i<2. \<exists>kvs. rows ! i = JObj kvs \<and> length kvs = 2 \<and> distinct (map fst kvs) \<and>
        set (map fst kvs) = {''time'', ''cpu''} \<and>
        read_prop (rows ! i) ''time'' = elem [JNum 1, JNum 2] i \<and>
        read_prop (rows ! i) ''cpu'' = elem [JNum 30, JNum 70] i)"
  using normalizer_rows_and_keys [OF sample_frame_fields, of 2 2 sample_builtins "[]"]
  by (simp add: valid_field_def name_of_def values_of_def)

text \<open>
  C10. The row count is read from the first field of frame 0 only. When the field list
  is not empty and its first field is missing (\<open>undefined\<close> or \<open>null\<close>) or has no
  \<open>values\<close> (the property is absent, \<open>undefined\<close> or \<open>null\<close>), the row count is 0 and the
  normalizer returns the empty sequence without raising, whatever the other fields are.
\<close>

theorem normalizer_first_field_missing:
  assumes "opt_prop frame ''fields'' = JArr (f # others)"
    and "nullish f \<or> nullish (read_prop f ''values'')"
  shows "rowCount (f # others) = JNum 0 \<and>
         rowCount (f # others) = rowCount [f] \<and>
         convertGrafanaDataToJson b (JArr (frame # frames)) = Inr []"
proof -
  from assms(2) have "opt_prop (opt_prop f ''values'') ''length'' = JUndefined"
    by (auto simp: opt_prop_def)
  then have rc: "rowCount (f # others) = JNum 0" and one: "rowCount [f] = JNum 0"
    by (simp_all add: rowCount_def elem_def or_else_def)
  have "iterations b (JNum 0) = 0" by (simp add: iterations_def)
  with rc one show ?thesis
    by (simp add: convertGrafanaDataToJson_def assms(1) elem_def for_rows_none)
qed

theorem normalizer_first_field_missing_witness:
  "rowCount [JNull, JObj [(''name'', JStr ''cpu''), (''values'', JArr [JNum 30, JNum 70])]]
     = JNum 0 \<and>
   convertGrafanaDataToJson sample_builtins
     (JArr [JObj [(''fields'',
        JArr [JNull, JObj [(''name'', JStr ''cpu''), (''values'', JArr [JNum 30, JNum 70])]])]])
     = Inr [] \<and>
   convertGrafanaDataToJson sample_builtins
     (JArr [JObj [(''fields'',
        JArr [JObj [(''name'', JStr ''time'')],
              JObj [(''name'', JStr ''cpu''), (''values'', JArr [JNum 30, JNum 70])]])]])
     = Inr []"
  using normalizer_first_field_missing
          [of "JObj [(''fields'',
                 JArr [JNull, JObj [(''name'', JStr ''cpu''), (''values'', JArr [JNum 30, JNum 70])]])]"
              JNull "[JObj [(''name'', JStr ''cpu''), (''values'', JArr [JNum 30, JNum 70])]]"
              sample_builtins "[]"]
        normalizer_first_field_missing
          [of "JObj [(''fields'',
                 JArr [JObj [(''name'', JStr ''time'')],
                       JObj [(''name'', JStr ''cpu''), (''values'', JArr [JNum 30, JNum 70])]])]"
              "JObj [(''name'', JStr ''time'')]"
              "[JObj [(''name'', JStr ''cpu''), (''values'', JArr [JNum 30, JNum 70])]]"
              sample_builtins "[]"]
  by (simp add: opt_prop_def)

section \<open>Properties of the Dashboard Query Extractor\<close>

lemma for_targets_result:
  "for_targets panel ts acc = Inr r \<Longrightarrow> r = acc @ map (descriptor_obj panel) ts"
proof (induction ts arbitrary: acc)
  case Nil
  then show ?case by simp
next
  case (Cons t ts)
  from Cons.prems have "for_targets panel ts (acc @ [descriptor_obj panel t]) = Inr r"
    by (auto simp: descriptor_def split: if_splits)
  from Cons.IH [OF this] show ?case by simp
qed

lemma for_targets_total:
  "\<not> nullish panel \<Longrightarrow> \<forall>t \<in> set ts. \<not> nullish t \<Longrightarrow>
   for_targets panel ts acc = Inr (acc @ map (descriptor_obj panel) ts)"
  by (induction ts arbitrary: acc) (auto simp: descriptor_def)

lemma skipped_panel:
  "\<not> truthy ts \<or> \<not> isArray ts \<Longrightarrow> items ts = []"
  by (cases ts) auto

lemma for_panels_result:
  "for_panels ps acc = Inr r \<Longrightarrow>
   r = acc @ concat (map (\<lambda>p. map (descriptor_obj p) (target_list p)) ps)"
proof (induction ps arbitrary: acc)
  case Nil
  then show ?case by simp
next
  case (Cons p ps)
  from Cons.prems have nn: "\<not> nullish p"
    by (auto simp: get_prop_def split: if_splits)
  show ?case
  proof (cases "\<not> truthy (read_prop p ''targets'') \<or> \<not> isArray (read_prop p ''targets'')")
    case True
    with Cons.prems nn have "for_panels ps acc = Inr r" by (simp add: get_prop_def)
    from Cons.IH [OF this] skipped_panel [OF True] show ?thesis
      by (simp add: target_list_def)
  next
    case False
    with Cons.prems nn obtain r' where
      t: "for_targets p (items (read_prop p ''targets'')) acc = Inr r'" and
      rest: "for_panels ps r' = Inr r"
      by (auto simp: get_prop_def split: sum.splits)
    from for_targets_result [OF t] Cons.IH [OF rest] show ?thesis
      by (simp add: target_list_def)
  qed
qed

lemma for_panels_total:
  "\<forall>p \<in> set ps. \<not> nullish p \<Longrightarrow> \<forall>p \<in> set ps. \<forall>t \<in> set (target_list p). \<not> nullish t \<Longrightarrow>
   for_panels ps acc = Inr (acc @ concat (map (\<lambda>p. map (descriptor_obj p) (target_list p)) ps))"
proof (induction ps arbitrary: acc)
  case Nil
  then show ?case by simp
next
  case (Cons p ps)
  from Cons.prems have nn: "\<not> nullish p" by simp
  show ?case
  proof (cases "\<not> truthy (read_prop p ''targets'') \<or> \<not> isArray (read_prop p ''targets'')")
    case True
    with Cons nn skipped_panel [OF True] show ?thesis
      by (simp add: get_prop_def target_list_def)
  next
    case False
    from Cons.prems have "\<forall>t \<in> set (items (read_prop p ''targets'')). \<not> nullish t"
      by (simp add: target_list_def)
    from for_targets_total [OF nn this]
    have "for_targets p (items (read_prop p ''targets'')) acc =
          Inr (acc @ map (descriptor_obj p) (target_list p))"
      by (simp add: target_list_def)
    with Cons False nn show ?thesis by (simp add: get_prop_def)
  qed
qed

text \<open>
  C4. For a panel list with \<open>P\<close> panels and \<open>T\<close> targets in all (a panel without a target
  list counts 0), the extractor produces exactly \<open>T\<close> descriptors: those of the first
  panel in target order, then those of the second, and so on.
\<close>

theorem extractor_count_and_order:
  assumes "\<forall>p \<in> set panels. \<not> nullish p"
    and "\<forall>p \<in> set panels. \<forall>t \<in> set (target_list p). \<not> nullish t"
    and "length panels = P"
    and "(\<Sum>p\<leftarrow>panels. length (target_list p)) = T"
  shows "\<exists>ds. convertDashboardData b (JArr panels) = Inr ds \<and> length ds = T \<and>
           ds = concat (map (\<lambda>p. map (descriptor_obj p) (target_list p)) panels)"
proof -
  have "length (concat (map (\<lambda>p. map (descriptor_obj p) (target_list p)) panels)) = T"
    using assms(4) by (simp add: length_concat comp_def)
  with for_panels_total [OF assms(1,2), of "[]"] show ?thesis
    by (simp add: convertDashboardData_def)
qed

theorem extractor_count_and_order_witness:
  "\<exists>ds. convertDashboardData sample_builtins (JArr sample_panels) = Inr ds \<and> length ds = 1 \<and>
     ds = concat (map (\<lambda>p. map (descriptor_obj p) (target_list p)) sample_panels)"
  using extractor_count_and_order [of sample_panels 2 1 sample_builtins]
  by (simp add: sample_panels_def target_list_def)

text \<open>
  C6. Every descriptor the extractor emits belongs to a target of a panel of the list
  it walked (the given list, or the one parsed from the given text). Its \<open>datasource\<close>
  is \<open>"Unknown"\<close> when the target has none; its \<open>rawSql\<close>, \<open>refId\<close> and \<open>format\<close> are the
  empty string when the target has none; its \<open>title\<close> and \<open>description\<close> are the
  panel's, the empty string when the panel has none.
\<close>

theorem extractor_defaults:
  assumes "convertDashboardData b input = Inr ds" and "d \<in> set ds"
  shows "\<exists>panels panel target.
           (input = JArr panels \<or> (\<exists>s. input = JStr s \<and> JSON_parse b s = Inr (JArr panels))) \<and>
           panel \<in> set panels \<and> target \<in> set (target_list panel) \<and>
           read_prop d ''datasource'' =
             (if nullish (read_prop target ''datasource'') then JStr ''Unknown''
              else read_prop target ''datasource'') \<and>
           read_prop d ''rawSql'' =
             (if nullish (read_prop target ''rawSql'') then JStr []
              else read_prop target ''rawSql'') \<and>
           read_prop d ''refId'' =
             (if nullish (read_prop target ''refId'') then JStr []
              else read_prop target ''refId'') \<and>
           read_prop d ''format'' =
             (if nullish (read_prop target ''format'') then JStr []
              else read_prop target ''format'') \<and>
           read_prop d ''title'' =
             (if nullish (read_prop panel ''title'') then JStr []
              else read_prop panel ''title'') \<and>
           read_prop d ''description'' =
             (if nullish (read_prop panel ''description'') then JStr []
              else read_prop panel ''description'')"
proof -
  from assms have ne: "ds \<noteq> []" by auto
  with assms(1) obtain v where
    parsed: "(case input of JStr s \<Rightarrow> JSON_parse b s | _ \<Rightarrow> Inr input) = Inr v"
    and arr: "isArray v" and walk': "for_panels (items v) [] = Inr ds"
    by (auto simp: convertDashboardData_def split: sum.splits if_splits)
  from arr obtain panels where v: "v = JArr panels" by (cases v) auto
  from parsed v have
    src: "input = JArr panels \<or> (\<exists>s. input = JStr s \<and> JSON_parse b s = Inr (JArr panels))"
    by (cases input) auto
  from walk' v have walk: "for_panels panels [] = Inr ds" by simp
  from for_panels_result [OF walk] assms(2) obtain panel target where
    "panel \<in> set panels" "target \<in> set (target_list panel)" "d = descriptor_obj panel target"
    by auto
  with src show ?thesis
    by (intro exI [of _ panels] exI [of _ panel] exI [of _ target])
       (simp add: descriptor_obj_def coalesce_def)
qed

theorem extractor_defaults_witness:
  "convertDashboardData sample_builtins (JArr sample_panels) = Inr [sample_descriptor] \<and>
   read_prop sample_descriptor ''datasource'' = JStr ''Unknown'' \<and>
   read_prop sample_descriptor ''refId'' = JStr [] \<and>
   read_prop sample_descriptor ''title'' = JStr ''A'' \<and>
   (\<exists>panel target.
      panel \<in> set sample_panels \<and> target \<in> set (target_list panel) \<and>
      read_prop sample_descriptor ''datasource'' =
        (if nullish (read_prop target ''datasource'') then JStr ''Unknown''
         else read_prop target ''datasource'') \<and>
      read_prop sample_descriptor ''title'' =
        (if nullish (read_prop panel ''title'') then JStr []
         else read_prop panel ''title''))"
proof -
  have h: "convertDashboardData sample_builtins (JArr sample_panels) = Inr [sample_descriptor]"
    by (simp add: convertDashboardData_def sample_panels_def sample_descriptor_def
                  get_prop_def descriptor_def)
  have "sample_descriptor \<in> set [sample_descriptor]" by simp
  from extractor_defaults [OF h this] have
    "\<exists>panel target.
      panel \<in> set sample_panels \<and> target \<in> set (target_list panel) \<and>
      read_prop sample_descriptor ''datasource'' =
        (if nullish (read_prop target ''datasource'') then JStr ''Unknown''
         else read_prop target ''datasource'') \<and>
      read_prop sample_descriptor ''title'' =
        (if nullish (read_prop panel ''title'') then JStr []
         else read_prop panel ''title'')"
    by blast
  with h show ?thesis
    by (simp add: sample_descriptor_def descriptor_obj_def coalesce_def)
qed

section \<open>Runs of the executor on the samples\<close>

lemma sample_frame_rows:
  "convertGrafanaDataToJson b (JArr [sample_frame]) = Inr sample_rows"
  by (simp add: convertGrafanaDataToJson_def sample_frame_def sample_rows_def opt_prop_def
                elem_def rowCount_def or_else_def iterations_def for_rows.simps get_prop_def
                set_prop_def)

lemma good_run:
  "snd (queryDataSource (sample_host ps) (sample_target ''good'' t)) = Resolved (JArr sample_rows)"
  by (simp add: queryDataSource_def sample_host_def sample_target_def get_prop_def
                good_source_def subscribe_def sample_frame_rows)

lemma bad_run:
  "snd (queryDataSource (sample_host ps) (sample_target ''bad'' t)) =
     Rejected (Failure (JStr ''syntax error''))"
  by (simp add: queryDataSource_def sample_host_def sample_target_def get_prop_def
                bad_source_def subscribe_def)

lemma unknown_run:
  "queryDataSource (sample_host ps) (sample_target ''Unknown'' t) = ([], Resolved JNull)"
  by (simp add: queryDataSource_def sample_host_def sample_target_def get_prop_def)

lemma no_source_run:
  "queryDataSource (sample_host ps) (sample_target [] t) = ([], Resolved JUndefined)"
  by (simp add: queryDataSource_def sample_host_def sample_target_def get_prop_def)

section \<open>Properties of the Query Executor\<close>

text \<open>
  C5, as stated, fails: a descriptor without a data-source reference, or one whose
  reference the registry does not know (such as the extractor's default \<open>"Unknown"\<close>
  here), makes the executor issue no query request at all.
\<close>

theorem executor_request_counterexample:
  "fst (queryDataSource (sample_host []) (sample_target [] ''A'')) = [] \<and>
   fst (queryDataSource (sample_host []) (sample_target ''Unknown'' ''A'')) = []"
  by (simp add: unknown_run no_source_run)

text \<open>
  C5, amended. For every descriptor whose data-source reference is present and
  resolves in the registry, the executor issues exactly one query request. It carries a
  single target, whose \<open>refId\<close> is \<open>"A"\<close>, whose \<open>rawSql\<close> is empty and whose \<open>format\<close> is
  \<open>"table"\<close> when the descriptor does not provide them, a time range from one hour
  before the clock reading to the clock reading, an interval of 60000 ms, at most 500
  data points, no scoped variables, and the timezone \<open>"browser"\<close>.
\<close>

theorem executor_request:
  assumes "get_prop target ''datasource'' = Inr ds" and "truthy ds"
    and "datasource_get h ds = Resolved src"
  shows "fst (queryDataSource h target) =
     [\<lparr>targets =
         [\<lparr>refId = (if nullish (read_prop target ''refId'') then JStr ''A''
                     else read_prop target ''refId''),
           rawSql = (if nullish (read_prop target ''rawSql'') then JStr []
                     else read_prop target ''rawSql''),
           format = (if nullish (read_prop target ''format'') then JStr ''table''
                     else read_prop target ''format'')\<rparr>],
       range_from = Date_now h target - 3600 * 1000,
       range_to = new_Date h target,
       intervalMs = 60000,
       maxDataPoints = 500,
       scopedVars = [],
       timezone = ''browser''\<rparr>]"
  using assms
  by (cases "query src (query_request_for h target)")
     (simp_all add: queryDataSource_def query_request_for_def coalesce_def Let_def)

theorem executor_request_witness:
  "fst (queryDataSource (sample_host []) (JObj [(''datasource'', JStr ''good'')])) =
     [\<lparr>targets = [\<lparr>refId = JStr ''A'', rawSql = JStr [], format = JStr ''table''\<rparr>],
       range_from = 3600000,
       range_to = 7200001,
       intervalMs = 60000,
       maxDataPoints = 500,
       scopedVars = [],
       timezone = ''browser''\<rparr>]"
  using executor_request [of "JObj [(''datasource'', JStr ''good'')]" "JStr ''good''"
                             "sample_host []" good_source]
  by (simp add: get_prop_def sample_host_def)

section \<open>Properties of the Context Assembler\<close>

lemma caught_failure_result:
  "caught_failure h target \<Longrightarrow>
   snd (queryDataSource h target) = Resolved JUndefined \<or>
   snd (queryDataSource h target) = Resolved JNull"
  by (auto simp: caught_failure_def queryDataSource_def Let_def
           split: sum.splits outcome.splits if_splits)

lemma promise_all_resolved: "promise_all (map Resolved xs) = Resolved xs"
  by (induction xs) auto

lemma newPanelData_all_settled:
  assumes "\<forall>j<length ts. snd (queryDataSource h (ts ! j)) = Resolved (r j)"
  shows "newPanelData h ts = Resolved (map (\<lambda>j. entry (ts ! j) (r j)) [0..<length ts])"
proof -
  have "map (panelEntry h) ts = map Resolved (map (\<lambda>j. entry (ts ! j) (r j)) [0..<length ts])"
    using assms by (intro nth_equalityI) (auto simp: panelEntry_def entry_def)
  then show ?thesis
    unfolding newPanelData_def by (simp only: promise_all_resolved)
qed

text \<open>
  C1, as stated, fails twice. When the stream of one run signals an error, the
  assembly is rejected and the results of the other runs are lost with it. When one run
  fails inside the executor, the assembly goes on, and the failing panel contributes
  \<open>null\<close> (or \<open>undefined\<close>), not an empty row sequence.
\<close>

theorem assembler_one_failure_counterexample:
  "snd (queryDataSource (sample_host []) (sample_target ''good'' ''A'')) =
     Resolved (JArr sample_rows) \<and>
   newPanelData (sample_host []) [sample_target ''good'' ''A'', sample_target ''bad'' ''B''] =
     Rejected (Failure (JStr ''syntax error'')) \<and>
   newPanelData (sample_host []) [sample_target ''good'' ''A'', sample_target ''Unknown'' ''B''] =
     Resolved [entry (sample_target ''good'' ''A'') (JArr sample_rows),
               entry (sample_target ''Unknown'' ''B'') JNull] \<and>
   entry (sample_target ''Unknown'' ''B'') JNull \<noteq> entry (sample_target ''Unknown'' ''B'') (JArr [])"
  by (simp add: newPanelData_def panelEntry_def good_run bad_run unknown_run entry_def)

text \<open>
  C1, amended. For every list of \<open>N\<close> filtered descriptors, if exactly one run fails
  inside the executor (no data-source reference, a rejected registry lookup, or a
  \<open>query\<close> call that throws or rejects) and the other \<open>N - 1\<close> resolve with their rows, the assembly
  resolves with \<open>N\<close> entries in descriptor order: each of the \<open>N - 1\<close> carries its panel's
  title, description and rows, and the failing panel's entry carries \<open>undefined\<close> or
  \<open>null\<close> as its result.
\<close>

theorem assembler_one_failure:
  assumes "k < length ts" and "caught_failure h (ts ! k)"
    and "\<forall>j<length ts. j \<noteq> k \<longrightarrow> snd (queryDataSource h (ts ! j)) = Resolved (JArr (rows j))"
  shows "\<exists>entries. newPanelData h ts = Resolved entries \<and> length entries = length ts \<and>
           (\<forall>j<length ts. j \<noteq> k \<longrightarrow> entries ! j = entry (ts ! j) (JArr (rows j))) \<and>
           (entries ! k = entry (ts ! k) JUndefined \<or> entries ! k = entry (ts ! k) JNull)"
proof -
  from caught_failure_result [OF assms(2)] obtain v where
    v: "snd (queryDataSource h (ts ! k)) = Resolved v" and nul: "v = JUndefined \<or> v = JNull"
    by blast
  let ?r = "\<lambda>j. if j = k then v else JArr (rows j)"
  have "\<forall>j<length ts. snd (queryDataSource h (ts ! j)) = Resolved (?r j)"
    using assms(3) v by simp
  from newPanelData_all_settled [OF this]
  have "newPanelData h ts = Resolved (map (\<lambda>j. entry (ts ! j) (?r j)) [0..<length ts])" .
  moreover have "length (map (\<lambda>j. entry (ts ! j) (?r j)) [0..<length ts]) = length ts"
    by simp
  moreover have "\<forall>j<length ts. j \<noteq> k \<longrightarrow>
      map (\<lambda>j. entry (ts ! j) (?r j)) [0..<length ts] ! j = entry (ts ! j) (JArr (rows j))"
    by simp
  moreover have "map (\<lambda>j. entry (ts ! j) (?r j)) [0..<length ts] ! k = entry (ts ! k) JUndefined \<or>
      map (\<lambda>j. entry (ts ! j) (?r j)) [0..<length ts] ! k = entry (ts ! k) JNull"
    using assms(1) nul by auto
  ultimately show ?thesis by blast
qed

theorem assembler_one_failure_witness:
  "caught_failure (sample_host []) (sample_target ''Unknown'' ''B'') \<and>
   (\<exists>entries.
      newPanelData (sample_host []) [sample_target ''good'' ''A'', sample_target ''Unknown'' ''B''] =
        Resolved entries \<and>
      length entries = 2 \<and>
      entries ! 0 = entry (sample_target ''good'' ''A'') (JArr sample_rows) \<and>
      (entries ! 1 = entry (sample_target ''Unknown'' ''B'') JUndefined \<or>
       entries ! 1 = entry (sample_target ''Unknown'' ''B'') JNull))"
proof -
  have c: "caught_failure (sample_host []) (sample_target ''Unknown'' ''B'')"
    by (simp add: caught_failure_def sample_target_def get_prop_def sample_host_def)
  have "\<forall>j<length [sample_target ''good'' ''A'', sample_target ''Unknown'' ''B''].
          j \<noteq> 1 \<longrightarrow>
          snd (queryDataSource (sample_host [])
                 ([sample_target ''good'' ''A'', sample_target ''Unknown'' ''B''] ! j)) =
          Resolved (JArr ((\<lambda>j. sample_rows) j))"
    by (simp add: less_Suc_eq good_run)
  from assembler_one_failure
         [of 1 "[sample_target ''good'' ''A'', sample_target ''Unknown'' ''B'']"
             "sample_host []" "\<lambda>j. sample_rows", OF _ _ this] c
  obtain entries where
    e: "newPanelData (sample_host []) [sample_target ''good'' ''A'', sample_target ''Unknown'' ''B''] =
          Resolved entries"
       "length entries = 2"
       "\<forall>j<2. j \<noteq> 1 \<longrightarrow>
          entries ! j =
          entry ([sample_target ''good'' ''A'', sample_target ''Unknown'' ''B''] ! j) (JArr sample_rows)"
       "entries ! 1 = entry (sample_target ''Unknown'' ''B'') JUndefined \<or>
        entries ! 1 = entry (sample_target ''Unknown'' ''B'') JNull"
    by auto
  from e(3) [rule_format, of 0]
  have "entries ! 0 = entry (sample_target ''good'' ''A'') (JArr sample_rows)" by simp
  with c e(1,2,4) show ?thesis by blast
qed

section \<open>Runs of the submit handler\<close>

lemma fetchDashboard_array:
  "fetchDashboard h = Pending \<or> (\<exists>ds. fetchDashboard h = Resolved (JArr ds))"
  by (auto simp: fetchDashboard_def split: outcome.splits sum.splits)

lemma submit_first:
  assumes "chat v = []" and "assembled h = Resolved pd"
  shows "submitQuestion h v =
           Done \<lparr>set_chat = [system_message h pd, user_message (inputValue v)],
                 dispatched = [system_message h pd, user_message (inputValue v)],
                 set_input = []\<rparr>"
proof -
  from assms(2) fetchDashboard_array [of h] obtain ds where
    ds: "fetchDashboard h = Resolved (JArr ds)"
    by (auto simp: assembled_def)
  with assms(2) obtain filtered where
    "filter_rawSql ds = Inr filtered" "newPanelData h filtered = Resolved pd"
    by (auto simp: assembled_def split: sum.splits)
  with ds assms(1) show ?thesis by (simp add: submitQuestion_def Let_def)
qed

lemma submit_later:
  assumes "chat v \<noteq> []" and "fetchDashboard h \<noteq> Pending"
  shows "submitQuestion h v =
           Done \<lparr>set_chat = chat v @ [user_message (inputValue v)],
                 dispatched = chat v @ [user_message (inputValue v)],
                 set_input = []\<rparr>"
proof -
  from assms(2) fetchDashboard_array [of h] obtain ds where
    "fetchDashboard h = Resolved (JArr ds)" by auto
  with assms(1) show ?thesis by (simp add: submitQuestion_def Let_def)
qed

lemma submit_guard: "submitQuestion h v \<noteq> EarlyReturn"
  using fetchDashboard_array [of h]
  by (auto simp: submitQuestion_def Let_def split: outcome.splits sum.splits)

lemma submit_done_shape:
  assumes "submitQuestion h r = Done fx"
  shows "dispatched fx = set_chat fx \<and> set_input fx = [] \<and>
         (if chat r = []
          then \<exists>pd. assembled h = Resolved pd \<and>
                 set_chat fx = [system_message h pd, user_message (inputValue r)]
          else set_chat fx = chat r @ [user_message (inputValue r)])"
  using assms
  by (auto simp: submitQuestion_def assembled_def Let_def
           split: outcome.splits sum.splits if_splits)

lemma submit_done_iff:
  "(\<exists>fx. submitQuestion h v = Done fx) =
   (fetchDashboard h \<noteq> Pending \<and> (chat v = [] \<longrightarrow> (\<exists>pd. assembled h = Resolved pd)))"
proof
  assume "\<exists>fx. submitQuestion h v = Done fx"
  then obtain fx where fx: "submitQuestion h v = Done fx" ..
  then have "fetchDashboard h \<noteq> Pending"
    by (auto simp: submitQuestion_def)
  moreover from submit_done_shape [OF fx]
  have "chat v = [] \<longrightarrow> (\<exists>pd. assembled h = Resolved pd)" by auto
  ultimately show "fetchDashboard h \<noteq> Pending \<and> (chat v = [] \<longrightarrow> (\<exists>pd. assembled h = Resolved pd))"
    by simp
next
  assume a: "fetchDashboard h \<noteq> Pending \<and> (chat v = [] \<longrightarrow> (\<exists>pd. assembled h = Resolved pd))"
  show "\<exists>fx. submitQuestion h v = Done fx"
  proof (cases "chat v = []")
    case True
    with a obtain pd where "assembled h = Resolved pd" by blast
    from submit_first [OF True this] show ?thesis by blast
  next
    case False
    with a submit_later [OF False] show ?thesis by blast
  qed
qed

lemma failing_fetch:
  "fetchDashboard (sample_host failing_panels) = Resolved (JArr [sample_target ''bad'' ''A''])"
  by (simp add: fetchDashboard_def sample_host_def failing_panels_def get_prop_def
                convertDashboardData_def descriptor_def descriptor_obj_def coalesce_def
                sample_target_def)

lemma filter_sample_target:
  "filter_rawSql [sample_target ds t] = Inr [sample_target ds t]"
  by (simp add: sample_target_def get_prop_def)

lemma failing_panel_data:
  "newPanelData (sample_host ps) [sample_target ''bad'' t] =
     Rejected (Failure (JStr ''syntax error''))"
  by (simp add: newPanelData_def panelEntry_def bad_run)

lemma failing_submit:
  "submitQuestion (sample_host failing_panels) \<lparr>inputValue = ''X'', chat = []\<rparr> =
     Aborted (Failure (JStr ''syntax error''))"
  by (simp add: submitQuestion_def failing_fetch filter_sample_target failing_panel_data
           del: filter_rawSql.simps)

lemma silent_submit: "submitQuestion silent_host v = Hung"
  by (simp add: submitQuestion_def fetchDashboard_def silent_host_def sample_host_def)

lemma sample_host_text:
  "initalChatMessage (options (sample_host ps)) = ''Answer briefly.''"
  "JSON_stringify (sample_host ps) v = (if v = JArr [] then ''[]'' else ''[...]'')"
  by (simp_all add: sample_host_def)

lemma sample_assembled:
  "assembled (sample_host sample_panels) =
     Resolved [JObj [(''title'', JStr ''A''), (''description'', JStr []), (''result'', JNull)]]"
  by (simp add: assembled_def fetchDashboard_def sample_host_def sample_panels_def get_prop_def
                convertDashboardData_def descriptor_def descriptor_obj_def coalesce_def
                newPanelData_def panelEntry_def entry_def queryDataSource_def)

section \<open>Properties of the Conversation Controller\<close>

text \<open>
  C2, as stated, fails: on a first submit the transcript is set only after the dashboard
  fetch and every panel query. When the stream of a panel query signals an error the
  handler is aborted, and when a request never settles it waits for ever; in both cases
  no message is set.
\<close>

theorem submit_transcript_counterexample:
  "submitQuestion (sample_host failing_panels) \<lparr>inputValue = ''X'', chat = []\<rparr> =
     Aborted (Failure (JStr ''syntax error'')) \<and>
   chat (turn (sample_host failing_panels) \<lparr>inputValue = ''X'', chat = []\<rparr>) = [] \<and>
   submitQuestion silent_host \<lparr>inputValue = ''X'', chat = []\<rparr> = Hung"
  by (simp add: failing_submit silent_submit turn_def)

text \<open>
  C2, amended. For every input text \<open>X\<close> submitted while the transcript is empty and
  whose context assembly resolves, the controller sets the transcript to exactly two
  messages: a system message whose content is the configured preamble, a fixed phrase
  and the serialized panel data, followed by a user message with content \<open>X\<close>. For every
  input text \<open>Y\<close> submitted while the transcript is not empty and whose dashboard fetch
  settles, it sets the transcript to the old one followed by exactly one user message
  with content \<open>Y\<close>; the system message is neither rebuilt nor altered.
\<close>

theorem submit_transcript:
  "(chat v = [] \<and> assembled h = Resolved pd \<longrightarrow>
      (\<exists>fx. submitQuestion h v = Done fx \<and>
         set_chat fx =
           [\<lparr>content = initalChatMessage (options h) @ '' This is the data on the dashboard: ''
                        @ JSON_stringify h (JArr pd) @ ''.'',
             role = ''system''\<rparr>,
            \<lparr>content = inputValue v, role = ''user''\<rparr>])) \<and>
   (chat v \<noteq> [] \<and> fetchDashboard h \<noteq> Pending \<longrightarrow>
      (\<exists>fx. submitQuestion h v = Done fx \<and>
         set_chat fx = chat v @ [\<lparr>content = inputValue v, role = ''user''\<rparr>] \<and>
         length (set_chat fx) = length (chat v) + 1 \<and>
         set_chat fx ! 0 = chat v ! 0))"
proof (intro conjI impI)
  assume "chat v = [] \<and> assembled h = Resolved pd"
  then show "\<exists>fx. submitQuestion h v = Done fx \<and>
         set_chat fx =
           [\<lparr>content = initalChatMessage (options h) @ '' This is the data on the dashboard: ''
                        @ JSON_stringify h (JArr pd) @ ''.'',
             role = ''system''\<rparr>,
            \<lparr>content = inputValue v, role = ''user''\<rparr>]"
    using submit_first [of v h pd] by (simp add: system_message_def user_message_def)
next
  assume a: "chat v \<noteq> [] \<and> fetchDashboard h \<noteq> Pending"
  then have "set_chat \<lparr>set_chat = chat v @ [user_message (inputValue v)],
                 dispatched = chat v @ [user_message (inputValue v)],
                 set_input = []\<rparr> ! 0 = chat v ! 0"
    by (simp add: nth_append)
  with a show "\<exists>fx. submitQuestion h v = Done fx \<and>
         set_chat fx = chat v @ [\<lparr>content = inputValue v, role = ''user''\<rparr>] \<and>
         length (set_chat fx) = length (chat v) + 1 \<and>
         set_chat fx ! 0 = chat v ! 0"
    using submit_later [of v h] by (simp add: user_message_def)
qed

theorem submit_transcript_witness:
  "(\<exists>fx. submitQuestion (sample_host sample_panels) \<lparr>inputValue = ''X'', chat = []\<rparr> = Done fx \<and>
      set_chat fx =
        [\<lparr>content = ''Answer briefly. This is the data on the dashboard: [...].'', role = ''system''\<rparr>,
         \<lparr>content = ''X'', role = ''user''\<rparr>]) \<and>
   (\<exists>fx. submitQuestion (sample_host sample_panels)
            \<lparr>inputValue = ''Y'',
             chat = [\<lparr>content = ''Answer briefly. This is the data on the dashboard: [...].'',
                      role = ''system''\<rparr>,
                     \<lparr>content = ''X'', role = ''user''\<rparr>]\<rparr> = Done fx \<and>
      set_chat fx =
        [\<lparr>content = ''Answer briefly. This is the data on the dashboard: [...].'', role = ''system''\<rparr>,
         \<lparr>content = ''X'', role = ''user''\<rparr>,
         \<lparr>content = ''Y'', role = ''user''\<rparr>])"
proof -
  have p: "fetchDashboard (sample_host sample_panels) \<noteq> Pending"
    using sample_assembled by (auto simp: assembled_def)
  show ?thesis
    using submit_transcript [of "\<lparr>inputValue = ''X'', chat = []\<rparr>" "sample_host sample_panels"
                "[JObj [(''title'', JStr ''A''), (''description'', JStr []), (''result'', JNull)]]"]
          submit_transcript
            [of "\<lparr>inputValue = ''Y'',
                  chat = [\<lparr>content = ''Answer briefly. This is the data on the dashboard: [...].'',
                           role = ''system''\<rparr>,
                          \<lparr>content = ''X'', role = ''user''\<rparr>]\<rparr>"
                "sample_host sample_panels"
                "[JObj [(''title'', JStr ''A''), (''description'', JStr []), (''result'', JNull)]]"]
          sample_assembled p
    by (auto simp: sample_host_text)
qed

text \<open>
  C7, as stated, fails: the input is cleared by the last statement of the handler, after
  the awaited dashboard fetch and panel queries. A first submit with a panel query
  whose stream signals an error is aborted before it, and a submit whose dashboard
  request never settles does not reach it; the input keeps its text.
\<close>

theorem submit_clears_input_counterexample:
  "inputValue (turn (sample_host failing_panels) \<lparr>inputValue = ''X'', chat = []\<rparr>) = ''X'' \<and>
   inputValue (turn silent_host
      \<lparr>inputValue = ''X'', chat = [sample_system, user_message ''W'']\<rparr>) = ''X''"
  by (simp add: turn_def failing_submit silent_submit)

text \<open>
  C7, amended. On every submit whose dashboard fetch settles and, on a first turn, whose
  context assembly resolves, the handler reaches its end: the input buffer is cleared
  whatever the outcome of the completion request is, and when that request is rejected
  the transcript is the one the handler set, which ends with the user message just
  submitted; no assistant message is appended.
\<close>

theorem submit_clears_input:
  assumes "fetchDashboard h \<noteq> Pending"
    and "chat v = [] \<longrightarrow> (\<exists>pd. assembled h = Resolved pd)"
  shows "\<exists>fx. submitQuestion h v = Done fx \<and>
           turn h v = settle (fetchGroqData h (dispatched fx)) (apply_effects fx v) \<and>
           (\<forall>c. inputValue (settle c (apply_effects fx v)) = []) \<and>
           (\<forall>e. chat (settle (Rejected e) (apply_effects fx v)) = set_chat fx) \<and>
           last (set_chat fx) = \<lparr>content = inputValue v, role = ''user''\<rparr>"
proof -
  obtain fx where fx: "submitQuestion h v = Done fx" and inp: "set_input fx = []"
    and lst: "last (set_chat fx) = \<lparr>content = inputValue v, role = ''user''\<rparr>"
  proof (cases "chat v = []")
    case True
    with assms(2) obtain pd where "assembled h = Resolved pd" by blast
    from submit_first [OF True this] that show ?thesis
      by (simp add: user_message_def)
  next
    case False
    from submit_later [OF False assms(1)] that show ?thesis
      by (simp add: user_message_def)
  qed
  have "inputValue (settle c (apply_effects fx v)) = []" for c
    using inp by (cases c) (simp_all add: settle_def apply_effects_def)
  moreover have "chat (settle (Rejected e) (apply_effects fx v)) = set_chat fx" for e
    by (simp add: settle_def apply_effects_def)
  moreover have "turn h v = settle (fetchGroqData h (dispatched fx)) (apply_effects fx v)"
    using fx by (simp add: turn_def)
  ultimately show ?thesis using fx lst by blast
qed

theorem submit_clears_input_witness:
  "fetchDashboard (sample_host sample_panels) \<noteq> Pending \<and>
   (\<exists>pd. assembled (sample_host sample_panels) = Resolved pd) \<and>
   (\<exists>fx. submitQuestion (sample_host sample_panels) \<lparr>inputValue = ''X'', chat = []\<rparr> = Done fx \<and>
      turn (sample_host sample_panels) \<lparr>inputValue = ''X'', chat = []\<rparr> =
        settle (fetchGroqData (sample_host sample_panels) (dispatched fx))
          (apply_effects fx \<lparr>inputValue = ''X'', chat = []\<rparr>) \<and>
      (\<forall>c. inputValue (settle c (apply_effects fx \<lparr>inputValue = ''X'', chat = []\<rparr>)) = []) \<and>
      (\<forall>e. chat (settle (Rejected e) (apply_effects fx \<lparr>inputValue = ''X'', chat = []\<rparr>)) =
           set_chat fx) \<and>
      last (set_chat fx) = \<lparr>content = ''X'', role = ''user''\<rparr>)"
proof -
  have p: "fetchDashboard (sample_host sample_panels) \<noteq> Pending"
    using sample_assembled by (auto simp: assembled_def)
  have a: "\<exists>pd. assembled (sample_host sample_panels) = Resolved pd"
    using sample_assembled by blast
  from submit_clears_input [of "sample_host sample_panels" "\<lparr>inputValue = ''X'', chat = []\<rparr>", OF p] a
  show ?thesis using p by simp
qed

section \<open>Properties of fetchDashboard\<close>

lemma fetch_failed_empty: "fetch_failed h \<Longrightarrow> fetchDashboard h = Resolved (JArr [])"
  by (auto simp: fetch_failed_def malformed_def fetchDashboard_def convertDashboardData_def
           split: outcome.splits sum.splits jsv.splits if_splits)

lemma empty_assembled: "fetchDashboard h = Resolved (JArr []) \<Longrightarrow> assembled h = Resolved []"
  by (simp add: assembled_def newPanelData_def)

text \<open>
  C9, as stated, fails in its last part: past the guard a submit can still end before
  it builds any message. On a first turn the fetch may succeed and a panel query may
  then reject the fan-out: no panel data is gathered, the handler is aborted, and no
  completion request is dispatched.
\<close>

theorem fetchDashboard_never_rejects_counterexample:
  "fetchDashboard (sample_host failing_panels) = Resolved (JArr [sample_target ''bad'' ''A'']) \<and>
   newPanelData (sample_host failing_panels) [sample_target ''bad'' ''A''] =
     Rejected (Failure (JStr ''syntax error'')) \<and>
   submitQuestion (sample_host failing_panels) \<lparr>inputValue = ''X'', chat = []\<rparr> =
     Aborted (Failure (JStr ''syntax error''))"
  by (simp add: failing_fetch failing_panel_data failing_submit)

text \<open>
  C9, amended. \<open>fetchDashboard\<close> never rejects, and when it settles it resolves with an
  array, which is truthy: the guard on a falsy result in the submit handler is never
  taken. When the fetch fails (no dashboard UID, a rejected metadata request, or
  malformed panel data) the array is empty and so is the assembled panel data. A submit
  proceeds to build its messages and dispatch a completion request exactly when its
  dashboard fetch settles and, on a first turn, its context assembly resolves; this is
  so whenever the array is empty, where no panel data could be gathered: the request
  then carries, on a first turn, the system message built from no panel data and the
  user message, and afterwards the transcript and the user message.
\<close>

theorem fetchDashboard_never_rejects:
  "(\<forall>e. fetchDashboard h \<noteq> Rejected e) \<and>
   (fetchDashboard h = Pending \<or> (\<exists>ds. fetchDashboard h = Resolved (JArr ds) \<and> truthy (JArr ds))) \<and>
   submitQuestion h v \<noteq> EarlyReturn \<and>
   (fetch_failed h \<longrightarrow> fetchDashboard h = Resolved (JArr []) \<and> assembled h = Resolved []) \<and>
   ((\<exists>fx. submitQuestion h v = Done fx) =
      (fetchDashboard h \<noteq> Pending \<and> (chat v = [] \<longrightarrow> (\<exists>pd. assembled h = Resolved pd)))) \<and>
   (fetchDashboard h = Resolved (JArr []) \<longrightarrow>
      (\<exists>fx. submitQuestion h v = Done fx \<and>
         messages (groq_request h (dispatched fx)) =
           (if chat v = [] then [system_message h [], user_message (inputValue v)]
            else chat v @ [user_message (inputValue v)])))"
proof (intro conjI impI allI)
  fix e show "fetchDashboard h \<noteq> Rejected e"
    using fetchDashboard_array [of h] by auto
next
  show "fetchDashboard h = Pending \<or> (\<exists>ds. fetchDashboard h = Resolved (JArr ds) \<and> truthy (JArr ds))"
    using fetchDashboard_array [of h] by auto
next
  show "submitQuestion h v \<noteq> EarlyReturn" by (rule submit_guard)
next
  assume "fetch_failed h"
  then show "fetchDashboard h = Resolved (JArr [])" by (rule fetch_failed_empty)
next
  assume "fetch_failed h"
  then have "fetchDashboard h = Resolved (JArr [])" by (rule fetch_failed_empty)
  then show "assembled h = Resolved []" by (rule empty_assembled)
next
  show "(\<exists>fx. submitQuestion h v = Done fx) =
      (fetchDashboard h \<noteq> Pending \<and> (chat v = [] \<longrightarrow> (\<exists>pd. assembled h = Resolved pd)))"
    by (rule submit_done_iff)
next
  assume f: "fetchDashboard h = Resolved (JArr [])"
  show "\<exists>fx. submitQuestion h v = Done fx \<and>
         messages (groq_request h (dispatched fx)) =
           (if chat v = [] then [system_message h [], user_message (inputValue v)]
            else chat v @ [user_message (inputValue v)])"
  proof (cases "chat v = []")
    case True
    from submit_first [OF True empty_assembled [OF f]] True show ?thesis
      by (simp add: groq_request_def)
  next
    case False
    from f have "fetchDashboard h \<noteq> Pending" by simp
    from submit_later [OF False this] False show ?thesis
      by (simp add: groq_request_def)
  qed
qed

theorem fetchDashboard_never_rejects_witness:
  "fetch_failed no_uid_host \<and> fetch_failed rejecting_host \<and> fetch_failed (sample_host [JNull]) \<and>
   fetchDashboard no_uid_host = Resolved (JArr []) \<and>
   fetchDashboard rejecting_host = Resolved (JArr []) \<and>
   fetchDashboard (sample_host [JNull]) = Resolved (JArr []) \<and>
   (\<exists>fx. submitQuestion (sample_host [JNull]) \<lparr>inputValue = ''X'', chat = []\<rparr> = Done fx \<and>
      messages (groq_request (sample_host [JNull]) (dispatched fx)) =
        [system_message (sample_host [JNull]) [], user_message ''X''])"
proof -
  have f1: "fetch_failed no_uid_host"
    by (simp add: fetch_failed_def no_uid_host_def sample_host_def)
  have f2: "fetch_failed rejecting_host"
    by (simp add: fetch_failed_def rejecting_host_def sample_host_def)
  have f3: "fetch_failed (sample_host [JNull])"
    by (simp add: fetch_failed_def malformed_def sample_host_def get_prop_def
                  convertDashboardData_def)
  let ?v = "\<lparr>inputValue = ''X'', chat = []\<rparr>"
  from fetchDashboard_never_rejects [of no_uid_host ?v] f1
  have e1: "fetchDashboard no_uid_host = Resolved (JArr [])" by blast
  from fetchDashboard_never_rejects [of rejecting_host ?v] f2
  have e2: "fetchDashboard rejecting_host = Resolved (JArr [])" by blast
  from fetchDashboard_never_rejects [of "sample_host [JNull]" ?v] f3
  have e3: "fetchDashboard (sample_host [JNull]) = Resolved (JArr [])" by blast
  from fetchDashboard_never_rejects [of "sample_host [JNull]" ?v] e3
  have "\<exists>fx. submitQuestion (sample_host [JNull]) ?v = Done fx \<and>
      messages (groq_request (sample_host [JNull]) (dispatched fx)) =
        (if chat ?v = [] then [system_message (sample_host [JNull]) [], user_message (inputValue ?v)]
         else chat ?v @ [user_message (inputValue ?v)])"
    by blast
  then have "\<exists>fx. submitQuestion (sample_host [JNull]) ?v = Done fx \<and>
      messages (groq_request (sample_host [JNull]) (dispatched fx)) =
        [system_message (sample_host [JNull]) [], user_message ''X'']"
    by simp
  with f1 f2 f3 e1 e2 e3 show ?thesis by blast
qed

section \<open>The system message stays first\<close>

lemma headed_more: "headed ms c \<Longrightarrow> headed (ns @ ms) c"
  by (simp add: headed_def)

lemma submit_done_headed:
  assumes "submitQuestion h r = Done fx" and "chat r = [] \<or> headed ms (chat r)"
  shows "headed ((if chat r = [] then [set_chat fx ! 0] else []) @ ms) (set_chat fx)"
proof (cases "chat r = []")
  case True
  with submit_done_shape [OF assms(1)] have "set_chat fx \<noteq> []" by auto
  with True show ?thesis by (simp add: headed_def)
next
  case False
  with submit_done_shape [OF assms(1)] assms(2) show ?thesis
    by (simp add: headed_def nth_append)
qed

lemma submit_done_synthesized:
  assumes "submitQuestion h r = Done fx" and "chat r = []"
  shows "synthesized (set_chat fx ! 0)"
proof -
  from submit_done_shape [OF assms(1)] assms(2) obtain pd where
    "assembled h = Resolved pd" "set_chat fx ! 0 = system_message h pd" by auto
  then show ?thesis unfolding synthesized_def by blast
qed

lemma invariant_initial: "invariant initial"
  by (simp add: invariant_def initial_def)

lemma invariant_step:
  assumes "invariant s" and "step s s'"
  shows "invariant s'"
  using assms(2)
proof cases
  case (typed t)
  with assms(1) show ?thesis by (simp add: invariant_def)
next
  case clicked
  with assms(1) show ?thesis by (auto simp: invariant_def view.truncate_def)
next
  case (finished r h fx)
  let ?new = "if chat r = [] then [set_chat fx ! 0] else []"
  from assms(1) finished(2) have "chat r = [] \<or> headed (systems s) (chat r)"
    by (auto simp: invariant_def)
  from submit_done_headed [OF finished(3) this] submit_done_shape [OF finished(3)]
  have hd: "headed (?new @ systems s) (set_chat fx)" and d: "dispatched fx = set_chat fx"
    by simp_all
  from hd d have q: "headed (?new @ systems s) (messages (groq_request h (dispatched fx)))"
    by (simp add: groq_request_def)
  have old: "\<forall>r' \<in> set (running s). chat r' = [] \<or> headed (?new @ systems s) (chat r')"
    using assms(1) headed_more [of "systems s" _ ?new] by (auto simp: invariant_def)
  have oldq: "\<forall>q \<in> set (requests s). headed (?new @ systems s) (messages q)"
    using assms(1) headed_more [of "systems s" _ ?new] by (auto simp: invariant_def)
  have syn: "\<forall>m \<in> set (?new @ systems s). synthesized m"
    using assms(1) submit_done_synthesized [OF finished(3)] by (auto simp: invariant_def)
  have sub: "set (remove1 r (running s)) \<subseteq> set (running s)" by (rule set_remove1_subset)
  from hd have ne: "set_chat fx \<noteq> []" by (simp add: headed_def)
  show ?thesis
    unfolding invariant_def finished(1)
    using hd q old oldq syn sub ne by auto
next
  case (stopped r h e)
  have "set (remove1 r (running s)) \<subseteq> set (running s)" by (rule set_remove1_subset)
  with assms(1) stopped(1) show ?thesis by (auto simp: invariant_def)
next
  case (answered q h reply)
  from assms(1) answered(2) have "chat s \<noteq> []" by (auto simp: invariant_def)
  with assms(1) have "headed (systems s) (chat s)" by (simp add: invariant_def)
  then have "headed (systems s) (chat s @ [reply])" by (simp add: headed_def nth_append)
  with assms(1) answered(1) show ?thesis by (simp add: invariant_def)
next
  case (failed q h e)
  from assms(1) failed(2) have "chat s \<noteq> []" by (auto simp: invariant_def)
  with assms(1) failed(1) show ?thesis by (simp add: invariant_def)
qed

lemma reachable_invariant: "reachable s \<Longrightarrow> invariant s"
  by (induction rule: reachable.induct) (auto intro: invariant_initial invariant_step)

lemma step_keeps_transcript:
  assumes "invariant s" and "step s s'" and "chat s \<noteq> []"
  shows "chat s' \<noteq> []"
  using assms(2)
proof cases
  case (finished r h fx)
  from assms(1) finished(2) have "chat r = [] \<or> headed (systems s) (chat r)"
    by (auto simp: invariant_def)
  from submit_done_headed [OF finished(3) this] finished(1) show ?thesis
    by (simp add: headed_def)
qed (use assms(3) in auto)

text \<open>
  An event leaves element 0 of a transcript that is not empty as it is, unless it is
  the end of a run that started on another transcript than the present one.
\<close>

lemma step_first_message:
  assumes "step s s'" and "chat s \<noteq> []"
  shows "chat s' ! 0 = chat s ! 0 \<or>
         (\<exists>r \<in> set (running s). chat r \<noteq> chat s \<and>
            (\<exists>h fx. submitQuestion h r = Done fx \<and> chat s' = set_chat fx))"
  using assms(1)
proof cases
  case (finished r h fx)
  show ?thesis
  proof (cases "chat r = chat s")
    case True
    with assms(2) submit_done_shape [OF finished(3)]
    have "set_chat fx = chat s @ [user_message (inputValue r)]" by simp
    with finished(1) assms(2) show ?thesis by (simp add: nth_append)
  next
    case False
    from finished(1) have "chat s' = set_chat fx" by simp
    with False finished(2,3) show ?thesis by blast
  qed
next
  case (answered q h reply)
  with assms(2) show ?thesis by (simp add: nth_append)
qed simp_all

text \<open>
  An event that sends a completion request sends one whose messages are the
  transcript it has just set.
\<close>

lemma step_request:
  assumes "step s s'"
  shows "requests s' = requests s \<or>
         (\<exists>q. requests s' = q # requests s \<and> messages q = chat s' \<and>
              (\<exists>h. q = groq_request h (chat s')))"
  using assms
proof cases
  case (finished r h fx)
  from submit_done_shape [OF finished(3)] have "dispatched fx = set_chat fx" by simp
  with finished(1) show ?thesis by (auto simp: groq_request_def)
qed simp_all

lemma sample_clicked_twice:
  "reachable \<lparr>inputValue = ''X'', chat = [],
              running = [\<lparr>inputValue = ''X'', chat = []\<rparr>, \<lparr>inputValue = ''X'', chat = []\<rparr>],
              awaiting = [], requests = [],
       systems = []\<rparr>"
proof -
  let ?r = "\<lparr>inputValue = ''X'', chat = []\<rparr>"
  let ?s1 = "\<lparr>inputValue = ''X'', chat = [], running = [], awaiting = [], requests = [],
       systems = []\<rparr>"
  let ?s2 = "\<lparr>inputValue = ''X'', chat = [], running = [?r], awaiting = [], requests = [],
       systems = []\<rparr>"
  let ?s3 = "\<lparr>inputValue = ''X'', chat = [], running = [?r, ?r], awaiting = [], requests = [],
       systems = []\<rparr>"
  have "step initial (initial\<lparr>inputValue := ''X''\<rparr>)" by (rule step.typed)
  then have "step initial ?s1" by (simp add: initial_def)
  with reachable.start have r1: "reachable ?s1" by (rule reachable.after)
  have "step ?s1 (?s1\<lparr>running := view.truncate ?s1 # running ?s1\<rparr>)" by (rule step.clicked)
  then have "step ?s1 ?s2" by (simp add: view.truncate_def)
  with r1 have r2: "reachable ?s2" by (rule reachable.after)
  have "step ?s2 (?s2\<lparr>running := view.truncate ?s2 # running ?s2\<rparr>)" by (rule step.clicked)
  then have "step ?s2 ?s3" by (simp add: view.truncate_def)
  with r2 show ?thesis by (rule reachable.after)
qed

lemma sample_first_run:
  "submitQuestion (sample_host sample_panels) \<lparr>inputValue = ''X'', chat = []\<rparr> =
     Done \<lparr>set_chat = [sample_system, user_message ''X''],
           dispatched = [sample_system, user_message ''X''], set_input = []\<rparr>"
proof -
  have "chat \<lparr>inputValue = ''X'', chat = []\<rparr> = []" by simp
  from submit_first [OF this sample_assembled] show ?thesis
    by (simp add: sample_system_def)
qed

lemma empty_first_run:
  "submitQuestion (sample_host []) \<lparr>inputValue = ''X'', chat = []\<rparr> =
     Done \<lparr>set_chat = [system_message (sample_host []) [], user_message ''X''],
           dispatched = [system_message (sample_host []) [], user_message ''X''],
           set_input = []\<rparr>"
proof -
  have "fetchDashboard (sample_host []) = Resolved (JArr [])"
    by (simp add: fetchDashboard_def sample_host_def get_prop_def convertDashboardData_def)
  then have a: "assembled (sample_host []) = Resolved []" by (rule empty_assembled)
  have "chat \<lparr>inputValue = ''X'', chat = []\<rparr> = []" by simp
  from submit_first [OF this a] show ?thesis by simp
qed

lemma overlap_before_reachable: "reachable overlap_before"
proof -
  let ?r = "\<lparr>inputValue = ''X'', chat = []\<rparr>"
  let ?s3 = "\<lparr>inputValue = ''X'', chat = [], running = [?r, ?r], awaiting = [], requests = [],
       systems = []\<rparr>"
  have run: "?r \<in> set (running ?s3)" by simp
  from step.finished [OF run sample_first_run] have "step ?s3 overlap_before"
    by (simp add: overlap_before_def)
  with sample_clicked_twice show ?thesis by (rule reachable.after)
qed

lemma overlap_step: "step overlap_before overlap_after"
proof -
  have run: "\<lparr>inputValue = ''X'', chat = []\<rparr> \<in> set (running overlap_before)"
    by (simp add: overlap_before_def)
  from step.finished [OF run empty_first_run] show ?thesis
    by (simp add: overlap_before_def overlap_after_def)
qed

text \<open>
  C8, as stated, fails: element 0 is not always the same system message. When Send is
  clicked twice on the empty transcript, both runs take the first-turn branch, and the
  run that ends second replaces the transcript, element 0 included, by the system
  message it has synthesized itself.
\<close>

theorem system_message_first_counterexample:
  "reachable overlap_before \<and> step overlap_before overlap_after \<and>
   chat overlap_before \<noteq> [] \<and>
   chat overlap_before ! 0 = sample_system \<and>
   chat overlap_after ! 0 = system_message (sample_host []) [] \<and>
   chat overlap_after ! 0 \<noteq> chat overlap_before ! 0"
  using overlap_before_reachable overlap_step
  by (simp add: overlap_before_def overlap_after_def sample_system_def system_message_def
                sample_host_text)

text \<open>
  C8, amended. In every state the widget can reach, a transcript that is not empty
  starts with a system message that a first-turn run of the widget has synthesized
  (the only one while a single first-turn run has ended), and every event keeps it
  so. An event leaves element 0 itself unchanged, unless it is the end of a run that
  started on another transcript than the present one, which installs the transcript of
  that run. The rendered list is the transcript without its element 0. Every request
  sent to the completion service carries messages that start with such a system
  message, and an event that sends a request sends the whole transcript it has just
  set, element 0 included.
\<close>

theorem system_message_first:
  assumes "reachable s"
  shows "(chat s \<noteq> [] \<longrightarrow>
            chat s ! 0 \<in> set (systems s) \<and> role (chat s ! 0) = ''system'' \<and>
            chat s = chat s ! 0 # rendered (chat s) \<and>
            (\<forall>s'. step s s' \<longrightarrow>
               chat s' \<noteq> [] \<and> chat s' ! 0 \<in> set (systems s') \<and>
               (chat s' ! 0 = chat s ! 0 \<or>
                (\<exists>r \<in> set (running s). chat r \<noteq> chat s \<and>
                   (\<exists>h fx. submitQuestion h r = Done fx \<and> chat s' = set_chat fx))))) \<and>
         (\<forall>m \<in> set (systems s).
            \<exists>h panelData. assembled h = Resolved panelData \<and> m = system_message h panelData) \<and>
         (\<forall>m. systems s = [m] \<and> chat s \<noteq> [] \<longrightarrow> chat s ! 0 = m) \<and>
         (\<forall>q \<in> set (requests s).
            messages q \<noteq> [] \<and> messages q ! 0 \<in> set (systems s) \<and>
            role (messages q ! 0) = ''system'') \<and>
         (\<forall>s'. step s s' \<longrightarrow>
            requests s' = requests s \<or>
            (\<exists>q. requests s' = q # requests s \<and> messages q = chat s' \<and>
                 (\<exists>h. q = groq_request h (chat s'))))"
proof -
  from assms have inv: "invariant s" by (rule reachable_invariant)
  have syn: "\<forall>m \<in> set (systems s).
      \<exists>h panelData. assembled h = Resolved panelData \<and> m = system_message h panelData"
    using inv by (simp add: invariant_def synthesized_def)
  have sys: "role m = ''system''" if "m \<in> set (systems s)" for m
    using that syn by (auto simp: system_message_def)
  have req: "\<forall>q \<in> set (requests s).
          messages q \<noteq> [] \<and> messages q ! 0 \<in> set (systems s) \<and>
          role (messages q ! 0) = ''system''"
    using inv sys by (auto simp: invariant_def headed_def)
  have first: "chat s ! 0 \<in> set (systems s) \<and> role (chat s ! 0) = ''system'' \<and>
      chat s = chat s ! 0 # rendered (chat s) \<and>
      (\<forall>s'. step s s' \<longrightarrow>
         chat s' \<noteq> [] \<and> chat s' ! 0 \<in> set (systems s') \<and>
         (chat s' ! 0 = chat s ! 0 \<or>
          (\<exists>r \<in> set (running s). chat r \<noteq> chat s \<and>
             (\<exists>h fx. submitQuestion h r = Done fx \<and> chat s' = set_chat fx))))"
    if ne: "chat s \<noteq> []"
  proof -
    from inv ne have h: "chat s ! 0 \<in> set (systems s)" by (simp add: invariant_def headed_def)
    have r: "chat s = chat s ! 0 # rendered (chat s)"
      using ne by (cases "chat s") (simp_all add: rendered_def)
    have "chat s' \<noteq> [] \<and> chat s' ! 0 \<in> set (systems s') \<and>
         (chat s' ! 0 = chat s ! 0 \<or>
          (\<exists>r \<in> set (running s). chat r \<noteq> chat s \<and>
             (\<exists>h fx. submitQuestion h r = Done fx \<and> chat s' = set_chat fx)))"
      if st: "step s s'" for s'
    proof -
      from step_keeps_transcript [OF inv st ne] have n: "chat s' \<noteq> []" .
      from invariant_step [OF inv st] have "invariant s'" .
      with n have "chat s' ! 0 \<in> set (systems s')" by (simp add: invariant_def headed_def)
      with n step_first_message [OF st ne] show ?thesis by blast
    qed
    with h r sys [OF h] show ?thesis by blast
  qed
  have one: "\<forall>m. systems s = [m] \<and> chat s \<noteq> [] \<longrightarrow> chat s ! 0 = m"
    using inv by (auto simp: invariant_def headed_def)
  have sent: "requests s' = requests s \<or>
      (\<exists>q. requests s' = q # requests s \<and> messages q = chat s' \<and>
           (\<exists>h. q = groq_request h (chat s')))"
    if st: "step s s'" for s'
    using st by (rule step_request)
  from first syn one req sent show ?thesis by blast
qed

lemma sample_state_reachable: "reachable sample_state"
proof -
  let ?r = "\<lparr>inputValue = ''X'', chat = []\<rparr>"
  let ?s1 = "\<lparr>inputValue = ''X'', chat = [], running = [], awaiting = [], requests = [],
       systems = []\<rparr>"
  let ?s2 = "\<lparr>inputValue = ''X'', chat = [], running = [?r], awaiting = [], requests = [],
       systems = []\<rparr>"
  have "step initial (initial\<lparr>inputValue := ''X''\<rparr>)" by (rule step.typed)
  then have "step initial ?s1" by (simp add: initial_def)
  with reachable.start have r1: "reachable ?s1" by (rule reachable.after)
  have "step ?s1 (?s1\<lparr>running := view.truncate ?s1 # running ?s1\<rparr>)" by (rule step.clicked)
  then have "step ?s1 ?s2" by (simp add: view.truncate_def)
  with r1 have r2: "reachable ?s2" by (rule reachable.after)
  have run: "?r \<in> set (running ?s2)" by simp
  from step.finished [OF run sample_first_run] have "step ?s2 sample_state"
    by (simp add: sample_state_def)
  with r2 show ?thesis by (rule reachable.after)
qed

theorem system_message_first_witness:
  "reachable sample_state \<and> chat sample_state \<noteq> [] \<and>
   chat sample_state ! 0 \<in> set (systems sample_state) \<and>
   chat sample_state ! 0 = sample_system \<and>
   role (chat sample_state ! 0) = ''system'' \<and>
   chat sample_state = sample_system # rendered (chat sample_state) \<and>
   rendered (chat sample_state) = [user_message ''X''] \<and>
   requests sample_state =
     [groq_request (sample_host sample_panels) [sample_system, user_message ''X'']] \<and>
   messages (requests sample_state ! 0) = chat sample_state \<and>
   messages (requests sample_state ! 0) ! 0 \<in> set (systems sample_state)"
proof -
  have ne: "chat sample_state \<noteq> []" by (simp add: sample_state_def)
  have q: "requests sample_state ! 0 \<in> set (requests sample_state)"
    by (simp add: sample_state_def)
  have one: "systems sample_state = [sample_system]" by (simp add: sample_state_def)
  from system_message_first [OF sample_state_reachable] ne
  have "chat sample_state ! 0 \<in> set (systems sample_state)"
    and "role (chat sample_state ! 0) = ''system''"
    and "chat sample_state = chat sample_state ! 0 # rendered (chat sample_state)"
    by blast+
  moreover from system_message_first [OF sample_state_reachable] one ne
  have "chat sample_state ! 0 = sample_system" by blast
  moreover from system_message_first [OF sample_state_reachable] q
  have "messages (requests sample_state ! 0) ! 0 \<in> set (systems sample_state)" by blast
  ultimately show ?thesis
    using sample_state_reachable
    by (simp add: sample_state_def rendered_def groq_request_def)
qed

end
